theory Spec2Isabelle
  imports Main "HOL-Library.Char_ord" "HOL-Library.List_Lexorder" "HOL-Library.AList"
    "HOL-Library.Multiset"
begin

section \<open>The lazy JSON backends of conda\_forge\_tick\<close>

text \<open>
  A shallow embedding of \<^verbatim>\<open>conda_forge_tick/lazy_json_backends.py\<close>. Python strings
  are \<open>string\<close>, dictionaries are association lists in insertion order, exceptions are
  values of \<open>error\<close>. The libraries the module calls (\<^verbatim>\<open>hashlib\<close>, \<^verbatim>\<open>rapidjson\<close>) are
  parameters of the model; the operating system, the shell, git and the MongoDB driver
  are taken to succeed, so an error value of the model is always an exception that the
  module's own code raises or lets through.
\<close>

subsection \<open>Exceptions\<close>

datatype error =
    AssertionError
  | KeyError
  | IndexError
  | TypeError
  | AttributeError
  | FileNotFoundError
  | JSONDecodeError
  | InvalidOperation
  | NotModelled

subsection \<open>\<^verbatim>\<open>os.path\<close> on POSIX\<close>

text \<open>
  \<^verbatim>\<open>
  def split(p):
      i = p.rfind('/') + 1
      head, tail = p[:i], p[i:]
      if head and head != '/'*len(head):
          head = head.rstrip('/')
      return head, tail
  \<close>
\<close>

definition rstrip_sep :: "string \<Rightarrow> string" where
  "rstrip_sep s = rev (dropWhile (\<lambda>c. c = CHR ''/'') (rev s))"

definition os_path_split :: "string \<Rightarrow> string \<times> string" where
  "os_path_split p =
     (let i = length p - length (takeWhile (\<lambda>c. c \<noteq> CHR ''/'') (rev p));
          head = take i p;
          tail = drop i p
      in (if head \<noteq> [] \<and> head \<noteq> replicate (length head) (CHR ''/'')
          then rstrip_sep head else head, tail))"

definition os_path_basename :: "string \<Rightarrow> string" where
  "os_path_basename p = snd (os_path_split p)"

text \<open>
  \<^verbatim>\<open>
  def join(a, *p):
      path = a
      for b in p:
          if b.startswith('/'):   path = b
          elif not path or path.endswith('/'):   path += b
          else:   path += '/' + b
      return path
  \<close>
\<close>

definition startswith_sep :: "string \<Rightarrow> bool" where
  "startswith_sep b = (case b of [] \<Rightarrow> False | c # _ \<Rightarrow> c = CHR ''/'')"

definition endswith_sep :: "string \<Rightarrow> bool" where
  "endswith_sep p = (case rev p of [] \<Rightarrow> False | c # _ \<Rightarrow> c = CHR ''/'')"

definition join_step :: "string \<Rightarrow> string \<Rightarrow> string" where
  "join_step path b =
     (if startswith_sep b then b
      else if path = [] \<or> endswith_sep path then path @ b
      else path @ ''/'' @ b)"

definition os_path_join :: "string \<Rightarrow> string list \<Rightarrow> string" where
  "os_path_join a p = foldl join_step a p"

subsection \<open>\<^verbatim>\<open>get_sharded_path\<close>\<close>

text \<open>
  \<^verbatim>\<open>hashlib.sha1(s.encode("utf-8")).hexdigest()\<close> is the parameter \<open>sha1\<close>. The slice
  \<^verbatim>\<open>[0:n_dirs]\<close> follows Python for a negative bound, and \<^verbatim>\<open>hx[i]\<close> raises
  \<^verbatim>\<open>IndexError\<close> when the digest is shorter than \<^verbatim>\<open>n_dirs\<close>.
\<close>

definition slice_to :: "'a list \<Rightarrow> int \<Rightarrow> 'a list" where
  "slice_to xs n = (if 0 \<le> n then take (nat n) xs else take (length xs - nat (- n)) xs)"

definition get_sharded_path :: "(string \<Rightarrow> string) \<Rightarrow> string \<Rightarrow> int \<Rightarrow> error + string" where
  "get_sharded_path sha1 file_path n_dirs =
     (case os_path_split file_path of (top_dir, file_name) \<Rightarrow>
        if length top_dir = 0 \<or> top_dir = ''lazy_json'' then Inr file_name
        else
          let hx = slice_to (sha1 file_name) n_dirs in
          if length hx < nat n_dirs then Inl IndexError
          else Inr (os_path_join top_dir (map (\<lambda>i. [hx ! i]) [0..<nat n_dirs] @ [file_name])))"

text \<open>The path of a document: \<^verbatim>\<open>get_sharded_path(f"{name}/{key}.json")\<close>.\<close>

definition node_path :: "(string \<Rightarrow> string) \<Rightarrow> string \<Rightarrow> string \<Rightarrow> error + string" where
  "node_path sha1 name key = get_sharded_path sha1 (name @ ''/'' @ key @ ''.json'') 5"

text \<open>What \<^verbatim>\<open>hexdigest()\<close> of SHA-1 returns: forty lower-case hexadecimal digits.\<close>

definition is_hexdigest :: "nat \<Rightarrow> string \<Rightarrow> bool" where
  "is_hexdigest n d = (length d = n \<and> list_all (\<lambda>c. c \<in> set ''0123456789abcdef'') d)"

subsection \<open>Documents: JSON trees and Python values\<close>

text \<open>
  A JSON text is read and written by \<^verbatim>\<open>rapidjson\<close>; the model keeps its two halves apart.
  The text layer (characters to tree and back) is a parameter. The tree layer is modelled:
  which Python value a tree becomes, and which tree a Python value is written as. Numbers
  are Python integers; floating-point numbers are outside the embedding.
\<close>

datatype json =
    JNull
  | JBool bool
  | JInt int
  | JStr string
  | JArr "json list"
  | JObj "(string \<times> json) list"

text \<open>
  The hashable scalars (the values a Python set of a document holds), and the values of a
  document in memory: scalars, lists, dictionaries with string keys in insertion order,
  sets in their iteration order, and \<^verbatim>\<open>LazyJson\<close> handles, which a document holds by
  file name.
\<close>

datatype atom = ANone | ABool bool | AInt int | AStr string

datatype pyval =
    PAtom atom
  | PList "pyval list"
  | PDict "(string \<times> pyval) list"
  | PSet "atom list"
  | PLazy string

subsubsection \<open>Dictionaries\<close>

definition dict_has :: "('k \<times> 'v) list \<Rightarrow> 'k \<Rightarrow> bool" where
  "dict_has d k = (map_of d k \<noteq> None)"

definition dict_get :: "('k \<times> 'v) list \<Rightarrow> 'k \<Rightarrow> error + 'v" where
  "dict_get d k = (case map_of d k of None \<Rightarrow> Inl KeyError | Some v \<Rightarrow> Inr v)"

definition dict_set :: "('k \<times> 'v) list \<Rightarrow> 'k \<Rightarrow> 'v \<Rightarrow> ('k \<times> 'v) list" where
  "dict_set d k v = AList.update k v d"

text \<open>A dictionary built from pairs in order: a repeated key keeps its place and takes the later value.\<close>

definition dict_of_pairs :: "('k \<times> 'v) list \<Rightarrow> ('k \<times> 'v) list" where
  "dict_of_pairs kvs = foldl (\<lambda>d (k, v). dict_set d k v) [] kvs"

subsubsection \<open>The first exception wins\<close>

primrec sequence :: "(error + 'a) list \<Rightarrow> error + 'a list" where
  "sequence [] = Inr []"
| "sequence (r # rs) =
     (case r of
        Inl e \<Rightarrow> Inl e
      | Inr x \<Rightarrow> (case sequence rs of Inl e \<Rightarrow> Inl e | Inr xs \<Rightarrow> Inr (x # xs)))"

definition sequence_items :: "('k \<times> (error + 'a)) list \<Rightarrow> error + ('k \<times> 'a) list" where
  "sequence_items krs = sequence (map (\<lambda>(k, r). map_sum id (Pair k) r) krs)"

subsubsection \<open>\<^verbatim>\<open>sorted\<close> and \<^verbatim>\<open>set\<close> on scalars\<close>

text \<open>
  Python orders numbers (\<^verbatim>\<open>bool\<close> is a subclass of \<^verbatim>\<open>int\<close>) among themselves and strings
  among themselves; any other comparison raises \<^verbatim>\<open>TypeError\<close>. A list of at most one
  element is sorted without a comparison.
\<close>

definition atom_is_num :: "atom \<Rightarrow> bool" where
  "atom_is_num a = (case a of ABool _ \<Rightarrow> True | AInt _ \<Rightarrow> True | _ \<Rightarrow> False)"

definition atom_num :: "atom \<Rightarrow> int" where
  "atom_num a = (case a of ABool b \<Rightarrow> (if b then 1 else 0) | AInt i \<Rightarrow> i | _ \<Rightarrow> 0)"

definition atom_is_str :: "atom \<Rightarrow> bool" where
  "atom_is_str a = (case a of AStr _ \<Rightarrow> True | _ \<Rightarrow> False)"

definition atom_str :: "atom \<Rightarrow> string" where
  "atom_str a = (case a of AStr s \<Rightarrow> s | _ \<Rightarrow> [])"

definition py_sorted :: "atom list \<Rightarrow> error + atom list" where
  "py_sorted xs =
     (if length xs \<le> 1 then Inr xs
      else if list_all atom_is_num xs then Inr (sort_key atom_num xs)
      else if list_all atom_is_str xs then Inr (sort_key atom_str xs)
      else Inl TypeError)"

text \<open>Python's \<^verbatim>\<open>==\<close> on scalars: \<^verbatim>\<open>True == 1\<close> and \<^verbatim>\<open>False == 0\<close>.\<close>

definition atom_norm :: "atom \<Rightarrow> atom" where
  "atom_norm a = (case a of ABool b \<Rightarrow> AInt (if b then 1 else 0) | _ \<Rightarrow> a)"

definition py_eq :: "atom \<Rightarrow> atom \<Rightarrow> bool" where
  "py_eq a b = (atom_norm a = atom_norm b)"

definition set_add :: "atom list \<Rightarrow> atom \<Rightarrow> atom list" where
  "set_add s a = (if list_ex (py_eq a) s then s else s @ [a])"

text \<open>
  \<^verbatim>\<open>set(x)\<close>: the elements of a list must be hashable; a string gives its characters, a
  dictionary its keys. Iterating a \<^verbatim>\<open>LazyJson\<close> handle would load that document, which
  the value layer cannot do: the model stops there with \<open>NotModelled\<close>.
\<close>

definition atom_of :: "pyval \<Rightarrow> error + atom" where
  "atom_of v = (case v of PAtom a \<Rightarrow> Inr a | _ \<Rightarrow> Inl TypeError)"

definition py_set :: "pyval \<Rightarrow> error + pyval" where
  "py_set v =
     (case v of
        PList xs \<Rightarrow> map_sum id (\<lambda>as. PSet (foldl set_add [] as)) (sequence (map atom_of xs))
      | PSet s \<Rightarrow> Inr (PSet s)
      | PDict d \<Rightarrow> Inr (PSet (foldl set_add [] (map (AStr \<circ> fst) d)))
      | PAtom (AStr s) \<Rightarrow> Inr (PSet (foldl set_add [] (map (\<lambda>c. AStr [c]) s)))
      | PAtom _ \<Rightarrow> Inl TypeError
      | PLazy _ \<Rightarrow> Inl NotModelled)"

subsubsection \<open>\<^verbatim>\<open>default\<close>, and writing a value as a tree\<close>

text \<open>
  \<^verbatim>\<open>
  def default(obj):
      if isinstance(obj, LazyJson):
          return {"__lazy_json__": obj.file_name}
      elif isinstance(obj, Set):
          return {"__set__": True, "elements": sorted(obj)}
      raise TypeError(repr(obj) + " is not JSON serializable")
  \<close>
\<close>

definition default :: "pyval \<Rightarrow> error + pyval" where
  "default obj =
     (case obj of
        PLazy file_name \<Rightarrow> Inr (PDict [(''__lazy_json__'', PAtom (AStr file_name))])
      | PSet s \<Rightarrow>
          (case py_sorted s of
             Inl e \<Rightarrow> Inl e
           | Inr elements \<Rightarrow>
               Inr (PDict [(''__set__'', PAtom (ABool True)),
                           (''elements'', PList (map PAtom elements))]))
      | _ \<Rightarrow> Inl TypeError)"

definition json_of_atom :: "atom \<Rightarrow> json" where
  "json_of_atom a =
     (case a of ANone \<Rightarrow> JNull | ABool b \<Rightarrow> JBool b | AInt i \<Rightarrow> JInt i | AStr s \<Rightarrow> JStr s)"

text \<open>
  The writer of \<^verbatim>\<open>rapidjson.dumps(obj, sort_keys=True, default=hook)\<close> down to the tree:
  scalars, lists and dictionaries are written natively, the items of a dictionary in the
  order of their keys, and any other object goes to the hook.
\<close>

fun rapidjson_tree :: "(pyval \<Rightarrow> error + json) \<Rightarrow> pyval \<Rightarrow> error + json" where
  "rapidjson_tree hook (PAtom a) = Inr (json_of_atom a)"
| "rapidjson_tree hook (PList xs) = map_sum id JArr (sequence (map (rapidjson_tree hook) xs))"
| "rapidjson_tree hook (PDict d) =
     map_sum id JObj
       (sequence_items (sort_key fst (map (\<lambda>(k, v). (k, rapidjson_tree hook v)) d)))"
| "rapidjson_tree hook (PSet s) = hook (PSet s)"
| "rapidjson_tree hook (PLazy f) = hook (PLazy f)"

text \<open>
  The tree that \<^verbatim>\<open>dumps\<close> writes. What \<^verbatim>\<open>default\<close> returns is written in turn; it
  holds scalars only, so that second pass never reaches the hook again.
\<close>

definition no_hook :: "pyval \<Rightarrow> error + json" where
  "no_hook obj = Inl TypeError"

definition default_hook :: "pyval \<Rightarrow> error + json" where
  "default_hook obj = (case default obj of Inl e \<Rightarrow> Inl e | Inr d \<Rightarrow> rapidjson_tree no_hook d)"

definition dumps_tree :: "pyval \<Rightarrow> error + json" where
  "dumps_tree obj = rapidjson_tree default_hook obj"

text \<open>
  The value that \<^verbatim>\<open>rapidjson.loads\<close> builds from a tree when no hook is given (the document
  store's \<^verbatim>\<open>json.loads(value)\<close>).
\<close>

definition atom_of_json :: "json \<Rightarrow> atom" where
  "atom_of_json j =
     (case j of JBool b \<Rightarrow> ABool b | JInt i \<Rightarrow> AInt i | JStr s \<Rightarrow> AStr s | _ \<Rightarrow> ANone)"

fun plain_of_json :: "json \<Rightarrow> pyval" where
  "plain_of_json (JArr js) = PList (map plain_of_json js)"
| "plain_of_json (JObj kjs) = PDict (dict_of_pairs (map (\<lambda>(k, j). (k, plain_of_json j)) kjs))"
| "plain_of_json j = PAtom (atom_of_json j)"

subsection \<open>The environment of the module\<close>

text \<open>
  What the module takes from outside: the two digests of \<^verbatim>\<open>hashlib\<close> (hex digest of the
  UTF-8 bytes of a string), the text layer of \<^verbatim>\<open>rapidjson\<close> (\<open>json_write\<close>: the text of a
  tree with one space of indentation; \<open>json_read\<close>: the tree of a text, \<open>None\<close> for a text
  that is not JSON), and the tuple \<^verbatim>\<open>CF_TICK_GRAPH_DATA_BACKENDS\<close>, read from the process
  environment when the module is imported.
\<close>

record env =
  sha1_hex :: "string \<Rightarrow> string"
  sha256_hex :: "string \<Rightarrow> string"
  json_write :: "json \<Rightarrow> string"
  json_read :: "string \<Rightarrow> json option"
  BACKENDS :: "string list"

text \<open>\<^verbatim>\<open>CF_TICK_GRAPH_DATA_PRIMARY_BACKEND = CF_TICK_GRAPH_DATA_BACKENDS[0]\<close>; \<^verbatim>\<open>str.split\<close>
  never returns an empty list.\<close>

definition PRIMARY_BACKEND :: "env \<Rightarrow> string" where
  "PRIMARY_BACKEND E = hd (BACKENDS E)"

definition CF_TICK_GRAPH_DATA_HASHMAPS :: "string list" where
  "CF_TICK_GRAPH_DATA_HASHMAPS =
     [''pr_json'', ''pr_info'', ''version_pr_info'', ''versions'', ''node_attrs'']"

text \<open>\<^verbatim>\<open>dumps(obj)\<close> and the untouched \<^verbatim>\<open>rapidjson.loads(s)\<close>.\<close>

definition dumps :: "env \<Rightarrow> pyval \<Rightarrow> error + string" where
  "dumps E obj = map_sum id (json_write E) (dumps_tree obj)"

definition json_loads :: "env \<Rightarrow> string \<Rightarrow> error + pyval" where
  "json_loads E s =
     (case json_read E s of None \<Rightarrow> Inl JSONDecodeError | Some j \<Rightarrow> Inr (plain_of_json j))"

subsection \<open>The state outside the process\<close>

text \<open>
  The working directory is the list of its regular files, path and content, in the
  arbitrary order in which a directory listing yields them; a directory exists where a
  file lies below it, and no directory has a name that ends in \<^verbatim>\<open>.json\<close>. A collection of
  the database \<^verbatim>\<open>cf_graph\<close> is the list of its documents by \<^verbatim>\<open>node\<close>, each with its
  \<^verbatim>\<open>value\<close> and \<^verbatim>\<open>sha256\<close>. The trace records, in order, every \<^verbatim>\<open>hset\<close>, \<^verbatim>\<open>hmset\<close>,
  \<^verbatim>\<open>hdel\<close> and \<^verbatim>\<open>hmget\<close> that the document layer and the sync engine send to a backend.
\<close>

record mongo_doc =
  doc_value :: pyval
  doc_sha256 :: string

datatype call =
    HSet string string string string
  | HMSet string string "(string \<times> string) list"
  | HDel string string "string list"
  | HMGet string string "string list"

record world =
  files :: "(string \<times> string) list"
  cf_graph :: "string \<Rightarrow> (string \<times> mongo_doc) list"
  trace :: "call list"

text \<open>A step of the program: the state it leaves, and its value or the exception it raises.\<close>

definition and_then ::
  "'s \<times> (error + 'a) \<Rightarrow> ('s \<Rightarrow> 'a \<Rightarrow> 's \<times> (error + 'b)) \<Rightarrow> 's \<times> (error + 'b)" where
  "and_then r f = (case r of (w, Inl e) \<Rightarrow> (w, Inl e) | (w, Inr x) \<Rightarrow> f w x)"

definition log_call :: "call \<Rightarrow> world \<Rightarrow> world" where
  "log_call c w = w\<lparr>trace := trace w @ [c]\<rparr>"

subsection \<open>\<^verbatim>\<open>FileLazyJsonBackend\<close>\<close>

type_synonym tree = "(string \<times> string) list"

definition file_path :: "env \<Rightarrow> string \<Rightarrow> string \<Rightarrow> error + string" where
  "file_path E name key = node_path (sha1_hex E) name key"

text \<open>\<^verbatim>\<open>os.path.exists(get_sharded_path(f"{name}/{key}.json"))\<close>\<close>

definition file_hexists :: "env \<Rightarrow> tree \<Rightarrow> string \<Rightarrow> string \<Rightarrow> error + bool" where
  "file_hexists E fs name key =
     (case file_path E name key of Inl e \<Rightarrow> Inl e | Inr p \<Rightarrow> Inr (map_of fs p \<noteq> None))"

text \<open>\<^verbatim>\<open>os.makedirs\<close> of the parent, then \<^verbatim>\<open>open(sharded_path, "w")\<close> and \<^verbatim>\<open>write\<close>.\<close>

definition file_hset :: "env \<Rightarrow> tree \<Rightarrow> string \<Rightarrow> string \<Rightarrow> string \<Rightarrow> error + tree" where
  "file_hset E fs name key v =
     (case file_path E name key of Inl e \<Rightarrow> Inl e | Inr p \<Rightarrow> Inr (AList.update p v fs))"

definition file_hget :: "env \<Rightarrow> tree \<Rightarrow> string \<Rightarrow> string \<Rightarrow> error + string" where
  "file_hget E fs name key =
     (case file_path E name key of
        Inl e \<Rightarrow> Inl e
      | Inr p \<Rightarrow> (case map_of fs p of None \<Rightarrow> Inl FileNotFoundError | Some data_str \<Rightarrow> Inr data_str))"

text \<open>\<^verbatim>\<open>for key, value in mapping.items(): self.hset(name, key, value)\<close>: the files written
  before an exception stay written.\<close>

fun file_hmset :: "env \<Rightarrow> tree \<Rightarrow> string \<Rightarrow> (string \<times> string) list \<Rightarrow> tree \<times> (error + unit)" where
  "file_hmset E fs name [] = (fs, Inr ())"
| "file_hmset E fs name ((key, v) # mapping) =
     (case file_hset E fs name key v of
        Inl e \<Rightarrow> (fs, Inl e)
      | Inr fs' \<Rightarrow> file_hmset E fs' name mapping)"

definition file_hmget :: "env \<Rightarrow> tree \<Rightarrow> string \<Rightarrow> string list \<Rightarrow> error + string list" where
  "file_hmget E fs name keys = sequence (map (file_hget E fs name) keys)"

text \<open>
  \<^verbatim>\<open>glob.glob\<close>, for the two patterns of \<^verbatim>\<open>hkeys\<close>. The pattern \<^verbatim>\<open>*.json\<close> matches a name
  that ends in \<^verbatim>\<open>.json\<close> and does not start with a dot; \<^verbatim>\<open>**\<close> descends through the
  directories whose names do not start with a dot, the directory itself included. The
  recursive pattern is \<^verbatim>\<open>os.path.join(name, "**/*.json")\<close>, for a hashmap name without
  the metacharacters of \<^verbatim>\<open>glob\<close>.
\<close>

definition str_endswith :: "string \<Rightarrow> string \<Rightarrow> bool" where
  "str_endswith s suffix = (length suffix \<le> length s \<and> drop (length s - length suffix) s = suffix)"

definition str_startswith :: "string \<Rightarrow> string \<Rightarrow> bool" where
  "str_startswith s prefix = (take (length prefix) s = prefix)"

definition matches_star_json :: "string \<Rightarrow> bool" where
  "matches_star_json n = (str_endswith n ''.json'' \<and> \<not> str_startswith n ''.'')"

fun components :: "string \<Rightarrow> string list" where
  "components [] = [[]]"
| "components (c # cs) =
     (if c = CHR ''/'' then [] # components cs
      else (case components cs of [] \<Rightarrow> [[c]] | n # ns \<Rightarrow> (c # n) # ns))"

definition listing :: "tree \<Rightarrow> string list" where
  "listing fs = remdups (map fst fs)"

definition glob_star_json :: "tree \<Rightarrow> string list" where
  "glob_star_json fs = filter (\<lambda>p. CHR ''/'' \<notin> set p \<and> matches_star_json p) (listing fs)"

definition under_recursive :: "string \<Rightarrow> string \<Rightarrow> bool" where
  "under_recursive dir p =
     (str_startswith p dir \<and>
      (let cs = components (drop (length dir) p) in
       list_all (\<lambda>n. \<not> str_startswith n ''.'') (butlast cs) \<and> matches_star_json (last cs)))"

definition glob_recursive_json :: "tree \<Rightarrow> string \<Rightarrow> string list" where
  "glob_recursive_json fs name =
     (let pattern = os_path_join name [''**/*.json''];
          dir = take (length pattern - length ''**/*.json'') pattern
      in filter (under_recursive dir) (listing fs))"

text \<open>
  \<^verbatim>\<open>
  def hkeys(self, name):
      jlen = len(".json")
      if name == "lazy_json":
          fnames = glob.glob("*.json")
          fnames = set(fnames) - {"ranked_hubs_authorities.json", "all_feedstocks.json"}
      else:
          fnames = glob.glob(os.path.join(name, "**/*.json"), recursive=True)
      return [os.path.basename(fname)[:-jlen] for fname in fnames]
  \<close>
\<close>

definition strip_json :: "string \<Rightarrow> string" where
  "strip_json s = take (length s - length ''.json'') s"

definition file_hkeys :: "tree \<Rightarrow> string \<Rightarrow> string list" where
  "file_hkeys fs name =
     (let fnames =
        (if name = ''lazy_json''
         then filter (\<lambda>f. f \<notin> set [''ranked_hubs_authorities.json'', ''all_feedstocks.json''])
                (glob_star_json fs)
         else glob_recursive_json fs name)
      in map (\<lambda>fname. strip_json (os_path_basename fname)) fnames)"

text \<open>
  \<^verbatim>\<open>
  def hgetall(self, name, hashval=False):
      return {key: (hashlib.sha256(self.hget(name, key).encode("utf-8")).hexdigest()
                    if hashval else self.hget(name, key))
              for key in self.hkeys(name)}
  \<close>
\<close>

definition file_hgetall :: "env \<Rightarrow> tree \<Rightarrow> string \<Rightarrow> bool \<Rightarrow> error + (string \<times> string) list" where
  "file_hgetall E fs name hashval =
     map_sum id dict_of_pairs
       (sequence (map (\<lambda>key. map_sum id (\<lambda>s. (key, if hashval then sha256_hex E s else s))
                                (file_hget E fs name key))
                    (file_hkeys fs name)))"

text \<open>
  \<^verbatim>\<open>hdel\<close> computes every path, asks git to forget the files (under the three locks; that
  the tree is no git repository is passed over) and then runs \<^verbatim>\<open>rm -f\<close> on them. The model
  keeps the effect on the tree, for paths that the shell reads as single words.
\<close>

definition file_hdel :: "env \<Rightarrow> tree \<Rightarrow> string \<Rightarrow> string list \<Rightarrow> error + tree" where
  "file_hdel E fs name keys =
     (case sequence (map (file_path E name) keys) of
        Inl e \<Rightarrow> Inl e
      | Inr lzj_names \<Rightarrow> Inr (filter (\<lambda>(p, _). p \<notin> set lzj_names) fs))"

subsection \<open>\<^verbatim>\<open>MongoDBLazyJsonBackend\<close>\<close>

type_synonym collection = "(string \<times> mongo_doc) list"

text \<open>\<^verbatim>\<open>assert name in CF_TICK_GRAPH_DATA_HASHMAPS or name == "lazy_json"\<close>\<close>

definition mongo_name_ok :: "string \<Rightarrow> bool" where
  "mongo_name_ok name = (name \<in> set CF_TICK_GRAPH_DATA_HASHMAPS \<or> name = ''lazy_json'')"

text \<open>\<^verbatim>\<open>coll.count_documents({"node": key}) == 1\<close>\<close>

definition mongo_hexists :: "collection \<Rightarrow> string \<Rightarrow> string \<Rightarrow> error + bool" where
  "mongo_hexists coll name key =
     (if \<not> mongo_name_ok name then Inl AssertionError
      else Inr (length (filter (\<lambda>(node, _). node = key) coll) = 1))"

text \<open>The document that \<^verbatim>\<open>"$set"\<close> writes: the parsed value and the digest of the text.\<close>

definition mongo_doc_of :: "env \<Rightarrow> string \<Rightarrow> error + mongo_doc" where
  "mongo_doc_of E v =
     map_sum id (\<lambda>val. \<lparr>doc_value = val, doc_sha256 = sha256_hex E v\<rparr>) (json_loads E v)"

text \<open>\<^verbatim>\<open>update_one({"node": key}, {"$set": ...}, upsert=True)\<close>\<close>

definition mongo_hset :: "env \<Rightarrow> collection \<Rightarrow> string \<Rightarrow> string \<Rightarrow> string \<Rightarrow> error + collection" where
  "mongo_hset E coll name key v =
     (if \<not> mongo_name_ok name then Inl AssertionError
      else map_sum id (\<lambda>d. AList.update key d coll) (mongo_doc_of E v))"

text \<open>
  \<^verbatim>\<open>bulk_write\<close> of one upsert per item: the list of requests is built first, so a value
  that is not JSON raises before anything is written, and the driver refuses an empty
  list of requests.
\<close>

definition mongo_hmset ::
  "env \<Rightarrow> collection \<Rightarrow> string \<Rightarrow> (string \<times> string) list \<Rightarrow> error + collection" where
  "mongo_hmset E coll name mapping =
     (if \<not> mongo_name_ok name then Inl AssertionError
      else case sequence_items (map (\<lambda>(key, v). (key, mongo_doc_of E v)) mapping) of
        Inl e \<Rightarrow> Inl e
      | Inr [] \<Rightarrow> Inl InvalidOperation
      | Inr docs \<Rightarrow> Inr (foldl (\<lambda>c (key, d). AList.update key d c) coll docs))"

text \<open>\<^verbatim>\<open>dumps(data["value"])\<close> of a stored document.\<close>

definition mongo_dumps :: "env \<Rightarrow> mongo_doc \<Rightarrow> error + string" where
  "mongo_dumps E d = dumps E (doc_value d)"

text \<open>\<^verbatim>\<open>find_one\<close>, \<^verbatim>\<open>assert data is not None\<close>, \<^verbatim>\<open>return dumps(data["value"])\<close>\<close>

definition mongo_hget :: "env \<Rightarrow> collection \<Rightarrow> string \<Rightarrow> string \<Rightarrow> error + string" where
  "mongo_hget E coll name key =
     (if \<not> mongo_name_ok name then Inl AssertionError
      else case map_of coll key of None \<Rightarrow> Inl AssertionError | Some d \<Rightarrow> mongo_dumps E d)"

text \<open>
  \<^verbatim>\<open>
  cur = coll.find({"node": {"$in": list(keys)}})
  odata = {d["node"]: dumps(d["value"]) for d in cur}
  return [odata[k] for k in keys]
  \<close>
\<close>

definition mongo_hmget :: "env \<Rightarrow> collection \<Rightarrow> string \<Rightarrow> string list \<Rightarrow> error + string list" where
  "mongo_hmget E coll name keys =
     (if \<not> mongo_name_ok name then Inl AssertionError
      else case sequence_items
                  (map (\<lambda>(node, d). (node, mongo_dumps E d))
                     (filter (\<lambda>(node, _). node \<in> set keys) coll)) of
        Inl e \<Rightarrow> Inl e
      | Inr found \<Rightarrow> (let odata = dict_of_pairs found in sequence (map (dict_get odata) keys)))"

definition mongo_hgetall ::
  "env \<Rightarrow> collection \<Rightarrow> string \<Rightarrow> bool \<Rightarrow> error + (string \<times> string) list" where
  "mongo_hgetall E coll name hashval =
     (if \<not> mongo_name_ok name then Inl AssertionError
      else if hashval then Inr (dict_of_pairs (map (\<lambda>(node, d). (node, doc_sha256 d)) coll))
      else map_sum id dict_of_pairs
             (sequence_items (map (\<lambda>(node, d). (node, mongo_dumps E d)) coll)))"

text \<open>\<^verbatim>\<open>for key in keys: coll.delete_one({"node": key})\<close>\<close>

definition delete_one :: "collection \<Rightarrow> string \<Rightarrow> collection" where
  "delete_one coll key =
     (takeWhile (\<lambda>(node, _). node \<noteq> key) coll) @ drop 1 (dropWhile (\<lambda>(node, _). node \<noteq> key) coll)"

definition mongo_hdel :: "collection \<Rightarrow> string \<Rightarrow> string list \<Rightarrow> error + collection" where
  "mongo_hdel coll name keys =
     (if \<not> mongo_name_ok name then Inl AssertionError else Inr (foldl delete_one coll keys))"

definition mongo_hkeys :: "collection \<Rightarrow> string \<Rightarrow> error + string list" where
  "mongo_hkeys coll name = (if \<not> mongo_name_ok name then Inl AssertionError else Inr (map fst coll))"

subsection \<open>A backend by its name\<close>

text \<open>
  \<^verbatim>\<open>LAZY_JSON_BACKENDS = {"file": FileLazyJsonBackend, "mongodb": MongoDBLazyJsonBackend}\<close>;
  a backend object has no state of its own, so it is modelled by its class.
\<close>

datatype backend = FileBackend | MongoDBBackend

definition LAZY_JSON_BACKENDS :: "string \<Rightarrow> error + backend" where
  "LAZY_JSON_BACKENDS backend_name =
     (if backend_name = ''file'' then Inr FileBackend
      else if backend_name = ''mongodb'' then Inr MongoDBBackend
      else Inl KeyError)"

definition backend_name_of :: "backend \<Rightarrow> string" where
  "backend_name_of b = (case b of FileBackend \<Rightarrow> ''file'' | MongoDBBackend \<Rightarrow> ''mongodb'')"

definition hexists :: "env \<Rightarrow> world \<Rightarrow> backend \<Rightarrow> string \<Rightarrow> string \<Rightarrow> error + bool" where
  "hexists E w b name key =
     (case b of
        FileBackend \<Rightarrow> file_hexists E (files w) name key
      | MongoDBBackend \<Rightarrow> mongo_hexists (cf_graph w name) name key)"

definition hget :: "env \<Rightarrow> world \<Rightarrow> backend \<Rightarrow> string \<Rightarrow> string \<Rightarrow> error + string" where
  "hget E w b name key =
     (case b of
        FileBackend \<Rightarrow> file_hget E (files w) name key
      | MongoDBBackend \<Rightarrow> mongo_hget E (cf_graph w name) name key)"

definition hkeys :: "world \<Rightarrow> backend \<Rightarrow> string \<Rightarrow> error + string list" where
  "hkeys w b name =
     (case b of
        FileBackend \<Rightarrow> Inr (file_hkeys (files w) name)
      | MongoDBBackend \<Rightarrow> mongo_hkeys (cf_graph w name) name)"

definition hgetall ::
  "env \<Rightarrow> world \<Rightarrow> backend \<Rightarrow> string \<Rightarrow> bool \<Rightarrow> error + (string \<times> string) list" where
  "hgetall E w b name hashval =
     (case b of
        FileBackend \<Rightarrow> file_hgetall E (files w) name hashval
      | MongoDBBackend \<Rightarrow> mongo_hgetall E (cf_graph w name) name hashval)"

definition set_collection :: "world \<Rightarrow> string \<Rightarrow> collection \<Rightarrow> world" where
  "set_collection w name coll = w\<lparr>cf_graph := (cf_graph w)(name := coll)\<rparr>"

definition hset ::
  "env \<Rightarrow> world \<Rightarrow> backend \<Rightarrow> string \<Rightarrow> string \<Rightarrow> string \<Rightarrow> world \<times> (error + unit)" where
  "hset E w b name key v =
     (let w1 = log_call (HSet (backend_name_of b) name key v) w in
      case b of
        FileBackend \<Rightarrow>
          (case file_hset E (files w1) name key v of
             Inl e \<Rightarrow> (w1, Inl e)
           | Inr fs \<Rightarrow> (w1\<lparr>files := fs\<rparr>, Inr ()))
      | MongoDBBackend \<Rightarrow>
          (case mongo_hset E (cf_graph w1 name) name key v of
             Inl e \<Rightarrow> (w1, Inl e)
           | Inr coll \<Rightarrow> (set_collection w1 name coll, Inr ())))"

definition hmset ::
  "env \<Rightarrow> world \<Rightarrow> backend \<Rightarrow> string \<Rightarrow> (string \<times> string) list \<Rightarrow> world \<times> (error + unit)" where
  "hmset E w b name mapping =
     (let w1 = log_call (HMSet (backend_name_of b) name mapping) w in
      case b of
        FileBackend \<Rightarrow>
          (case file_hmset E (files w1) name mapping of (fs, r) \<Rightarrow> (w1\<lparr>files := fs\<rparr>, r))
      | MongoDBBackend \<Rightarrow>
          (case mongo_hmset E (cf_graph w1 name) name mapping of
             Inl e \<Rightarrow> (w1, Inl e)
           | Inr coll \<Rightarrow> (set_collection w1 name coll, Inr ())))"

definition hmget ::
  "env \<Rightarrow> world \<Rightarrow> backend \<Rightarrow> string \<Rightarrow> string list \<Rightarrow> world \<times> (error + string list)" where
  "hmget E w b name keys =
     (let w1 = log_call (HMGet (backend_name_of b) name keys) w in
      (w1, case b of
             FileBackend \<Rightarrow> file_hmget E (files w1) name keys
           | MongoDBBackend \<Rightarrow> mongo_hmget E (cf_graph w1 name) name keys))"

definition hdel ::
  "env \<Rightarrow> world \<Rightarrow> backend \<Rightarrow> string \<Rightarrow> string list \<Rightarrow> world \<times> (error + unit)" where
  "hdel E w b name keys =
     (let w1 = log_call (HDel (backend_name_of b) name keys) w in
      case b of
        FileBackend \<Rightarrow>
          (case file_hdel E (files w1) name keys of
             Inl e \<Rightarrow> (w1, Inl e)
           | Inr fs \<Rightarrow> (w1\<lparr>files := fs\<rparr>, Inr ()))
      | MongoDBBackend \<Rightarrow>
          (case mongo_hdel (cf_graph w1 name) name keys of
             Inl e \<Rightarrow> (w1, Inl e)
           | Inr coll \<Rightarrow> (set_collection w1 name coll, Inr ())))"

text \<open>
  \<^verbatim>\<open>
  def hsetnx(self, name, key, value):
      if self.hexists(name, key):
          return False
      else:
          self.hset(name, key, value)
          return True
  \<close>
\<close>

definition hsetnx ::
  "env \<Rightarrow> world \<Rightarrow> backend \<Rightarrow> string \<Rightarrow> string \<Rightarrow> string \<Rightarrow> world \<times> (error + bool)" where
  "hsetnx E w b name key v =
     (case hexists E w b name key of
        Inl e \<Rightarrow> (w, Inl e)
      | Inr True \<Rightarrow> (w, Inr False)
      | Inr False \<Rightarrow> and_then (hset E w b name key v) (\<lambda>w' _. (w', Inr True)))"

text \<open>
  What a backend gives back for a text it has stored: the file backend the text itself,
  the document store the text of the value it parsed.
\<close>

definition stored_text :: "env \<Rightarrow> backend \<Rightarrow> string \<Rightarrow> error + string" where
  "stored_text E b v =
     (case b of
        FileBackend \<Rightarrow> Inr v
      | MongoDBBackend \<Rightarrow> (case json_loads E v of Inl e \<Rightarrow> Inl e | Inr val \<Rightarrow> dumps E val))"

text \<open>The contract of \<^verbatim>\<open>hashlib.sha1(...).hexdigest()\<close>: forty hexadecimal digits.\<close>

definition hashlib_ok :: "env \<Rightarrow> bool" where
  "hashlib_ok E = (\<forall>s. is_hexdigest 40 (sha1_hex E s))"

subsection \<open>\<^verbatim>\<open>LazyJson\<close>\<close>

text \<open>
  The attribute \<^verbatim>\<open>_data\<close> holds a Python value, and the code asks \<^verbatim>\<open>self._data is None\<close>
  to know whether the document is loaded: the field \<open>data\<close> is that value, \<open>PAtom ANone\<close>
  while nothing is loaded and also when the stored document is the JSON \<^verbatim>\<open>null\<close>.
\<close>

record lazy_json =
  file_name :: string
  data :: pyval
  data_hash_at_load :: "string option"
  in_context :: bool
  hashmap :: string
  node :: string
  override_backends :: "string list option"

text \<open>
  \<^verbatim>\<open>
  def __init__(self, file_name):
      self.file_name = file_name
      self._data = None
      self._data_hash_at_load = None
      self._in_context = False
      fparts = os.path.split(self.file_name)
      if len(fparts[0]) > 0:
          key = fparts[0]
          node = fparts[1][: -len(".json")]
      else:
          key = "lazy_json"
          node = self.file_name[: -len(".json")]
      self.hashmap = key
      self.node = node
      self._override_backends = None
      if CF_TICK_GRAPH_DATA_PRIMARY_BACKEND == "file":
          LAZY_JSON_BACKENDS[CF_TICK_GRAPH_DATA_PRIMARY_BACKEND]().hsetnx(
              self.hashmap, self.node, dumps({}))
  \<close>
\<close>

definition new_handle :: "string \<Rightarrow> lazy_json" where
  "new_handle fname =
     (let fparts = os_path_split fname in
      \<lparr>file_name = fname, data = PAtom ANone, data_hash_at_load = None, in_context = False,
       hashmap = (if length (fst fparts) > 0 then fst fparts else ''lazy_json''),
       node = (if length (fst fparts) > 0 then strip_json (snd fparts) else strip_json fname),
       override_backends = None\<rparr>)"

definition LazyJson :: "env \<Rightarrow> world \<Rightarrow> string \<Rightarrow> world \<times> (error + lazy_json)" where
  "LazyJson E w fname =
     (let self = new_handle fname in
      if PRIMARY_BACKEND E = ''file'' then
        (case dumps E (PDict []) of
           Inl e \<Rightarrow> (w, Inl e)
         | Inr empty_doc \<Rightarrow>
             and_then (hsetnx E w FileBackend (hashmap self) (node self) empty_doc)
               (\<lambda>w' _. (w', Inr self)))
      else (w, Inr self))"

subsubsection \<open>\<^verbatim>\<open>object_hook\<close> and \<^verbatim>\<open>loads\<close>\<close>

text \<open>
  \<^verbatim>\<open>
  def object_hook(dct):
      if "__lazy_json__" in dct:
          return LazyJson(dct["__lazy_json__"])
      elif "__set__" in dct:
          return set(dct["elements"])
      return dct
  \<close>
  The constructor runs for its effect on the file tree; the document keeps the handle by
  its file name. A file name that is no string raises \<^verbatim>\<open>TypeError\<close> in \<^verbatim>\<open>os.path.split\<close>.
\<close>

definition object_hook :: "env \<Rightarrow> world \<Rightarrow> (string \<times> pyval) list \<Rightarrow> world \<times> (error + pyval)" where
  "object_hook E w dct =
     (if dict_has dct ''__lazy_json__'' then
        (case dict_get dct ''__lazy_json__'' of
           Inr (PAtom (AStr fname)) \<Rightarrow>
             and_then (LazyJson E w fname) (\<lambda>w' self. (w', Inr (PLazy (file_name self))))
         | Inr _ \<Rightarrow> (w, Inl TypeError)
         | Inl e \<Rightarrow> (w, Inl e))
      else if dict_has dct ''__set__'' then
        (w, case dict_get dct ''elements'' of Inl e \<Rightarrow> Inl e | Inr elements \<Rightarrow> py_set elements)
      else (w, Inr (PDict dct)))"

text \<open>
  The reader of \<^verbatim>\<open>rapidjson.loads(s, object_hook=object_hook)\<close> from the tree: every
  object becomes a dictionary, its members read first and in order, and is replaced by
  what the hook returns for it.
\<close>

fun decode :: "env \<Rightarrow> world \<Rightarrow> json \<Rightarrow> world \<times> (error + pyval)"
  and decode_list :: "env \<Rightarrow> world \<Rightarrow> json list \<Rightarrow> world \<times> (error + pyval list)"
  and decode_items ::
    "env \<Rightarrow> world \<Rightarrow> (string \<times> json) list \<Rightarrow> world \<times> (error + (string \<times> pyval) list)" where
  "decode E w (JArr js) = and_then (decode_list E w js) (\<lambda>w' xs. (w', Inr (PList xs)))"
| "decode E w (JObj kjs) =
     and_then (decode_items E w kjs) (\<lambda>w' items. object_hook E w' (dict_of_pairs items))"
| "decode E w JNull = (w, Inr (PAtom ANone))"
| "decode E w (JBool b) = (w, Inr (PAtom (ABool b)))"
| "decode E w (JInt i) = (w, Inr (PAtom (AInt i)))"
| "decode E w (JStr s) = (w, Inr (PAtom (AStr s)))"
| "decode_list E w [] = (w, Inr [])"
| "decode_list E w (j # js) =
     and_then (decode E w j)
       (\<lambda>w1 x. and_then (decode_list E w1 js) (\<lambda>w2 xs. (w2, Inr (x # xs))))"
| "decode_items E w [] = (w, Inr [])"
| "decode_items E w ((k, j) # kjs) =
     and_then (decode E w j)
       (\<lambda>w1 x. and_then (decode_items E w1 kjs) (\<lambda>w2 items. (w2, Inr ((k, x) # items))))"

definition loads :: "env \<Rightarrow> world \<Rightarrow> string \<Rightarrow> world \<times> (error + pyval)" where
  "loads E w s =
     (case json_read E s of None \<Rightarrow> (w, Inl JSONDecodeError) | Some j \<Rightarrow> decode E w j)"

subsubsection \<open>Loading and dumping\<close>

text \<open>
  \<^verbatim>\<open>
  def _load(self):
      if self._data is None:
          file_backend = LAZY_JSON_BACKENDS["file"]()
          if file_backend.hexists(self.hashmap, self.node):
              data_str = file_backend.hget(self.hashmap, self.node)
          else:
              if self._override_backends is not None:
                  primary_backend_name = self._override_backends[0]
              else:
                  primary_backend_name = CF_TICK_GRAPH_DATA_PRIMARY_BACKEND
              backend = LAZY_JSON_BACKENDS[primary_backend_name]()
              backend.hsetnx(self.hashmap, self.node, dumps({}))
              data_str = backend.hget(self.hashmap, self.node)
              if primary_backend_name != "file":
                  file_backend.hset(self.hashmap, self.node, data_str)
          self._data_hash_at_load = hashlib.sha256(data_str.encode("utf-8")).hexdigest()
          self._data = loads(data_str)
  \<close>
\<close>

type_synonym obj_state = "world \<times> lazy_json"

definition pure :: "'s \<Rightarrow> error + 'a \<Rightarrow> 's \<times> (error + 'a)" where
  "pure s r = (s, r)"

definition on_world :: "lazy_json \<Rightarrow> world \<times> (error + 'a) \<Rightarrow> obj_state \<times> (error + 'a)" where
  "on_world self r = ((fst r, self), snd r)"

definition primary_backend_name :: "env \<Rightarrow> lazy_json \<Rightarrow> error + string" where
  "primary_backend_name E self =
     (case override_backends self of
        Some [] \<Rightarrow> Inl IndexError
      | Some (b # _) \<Rightarrow> Inr b
      | None \<Rightarrow> Inr (PRIMARY_BACKEND E))"

definition fetch_data_str :: "env \<Rightarrow> world \<Rightarrow> lazy_json \<Rightarrow> world \<times> (error + string)" where
  "fetch_data_str E w self =
     (case hexists E w FileBackend (hashmap self) (node self) of
        Inl e \<Rightarrow> (w, Inl e)
      | Inr True \<Rightarrow> (w, hget E w FileBackend (hashmap self) (node self))
      | Inr False \<Rightarrow>
          and_then (pure w (primary_backend_name E self)) (\<lambda>w name.
          and_then (pure w (LAZY_JSON_BACKENDS name)) (\<lambda>w backend.
          and_then (pure w (dumps E (PDict []))) (\<lambda>w empty_doc.
          and_then (hsetnx E w backend (hashmap self) (node self) empty_doc) (\<lambda>w _.
          and_then (pure w (hget E w backend (hashmap self) (node self))) (\<lambda>w data_str.
          if name \<noteq> ''file''
          then and_then (hset E w FileBackend (hashmap self) (node self) data_str)
                 (\<lambda>w _. (w, Inr data_str))
          else (w, Inr data_str)))))))"

definition load :: "env \<Rightarrow> obj_state \<Rightarrow> obj_state \<times> (error + unit)" where
  "load E s =
     (case s of (w, self) \<Rightarrow>
        if data self = PAtom ANone then
          and_then (on_world self (fetch_data_str E w self)) (\<lambda>(w, self) data_str.
            let self = self\<lparr>data_hash_at_load := Some (sha256_hex E data_str)\<rparr> in
            and_then (on_world self (loads E w data_str)) (\<lambda>(w, self) v.
              ((w, self\<lparr>data := v\<rparr>), Inr ())))
        else (s, Inr ()))"

text \<open>
  \<^verbatim>\<open>
  def _dump(self, purge=False, force=False):
      self._load()
      data_str = dumps(self._data)
      curr_hash = hashlib.sha256(data_str.encode("utf-8")).hexdigest()
      if curr_hash != self._data_hash_at_load or force:
          self._data_hash_at_load = curr_hash
          file_backend = LAZY_JSON_BACKENDS["file"]()
          file_backend.hset(self.hashmap, self.node, data_str)
          if self._override_backends is not None:
              backend_names = self._override_backends
          else:
              backend_names = CF_TICK_GRAPH_DATA_BACKENDS
          for backend_name in backend_names:
              if backend_name == "file":
                  continue
              backend = LAZY_JSON_BACKENDS[backend_name]()
              backend.hset(self.hashmap, self.node, data_str)
      if purge:
          self._data = None
          self._data_hash_at_load = None
  \<close>
  The model has the method in its two parts: \<open>dump_write\<close> is everything before the
  last \<^verbatim>\<open>if\<close>, and \<open>dump\<close> adds the purge.
\<close>

fun sync_to_backends ::
  "env \<Rightarrow> world \<Rightarrow> string list \<Rightarrow> string \<Rightarrow> string \<Rightarrow> string \<Rightarrow> world \<times> (error + unit)" where
  "sync_to_backends E w [] name key data_str = (w, Inr ())"
| "sync_to_backends E w (backend_name # backend_names) name key data_str =
     (if backend_name = ''file'' then sync_to_backends E w backend_names name key data_str
      else
        and_then (pure w (LAZY_JSON_BACKENDS backend_name)) (\<lambda>w backend.
        and_then (hset E w backend name key data_str) (\<lambda>w _.
        sync_to_backends E w backend_names name key data_str)))"

definition backend_names :: "env \<Rightarrow> lazy_json \<Rightarrow> string list" where
  "backend_names E self =
     (case override_backends self of Some names \<Rightarrow> names | None \<Rightarrow> BACKENDS E)"

definition dump_write :: "env \<Rightarrow> obj_state \<Rightarrow> bool \<Rightarrow> obj_state \<times> (error + unit)" where
  "dump_write E s force =
     and_then (load E s) (\<lambda>(w, self) _.
     and_then (pure (w, self) (dumps E (data self)))
       (\<lambda>(w, self) data_str.
          let curr_hash = sha256_hex E data_str in
          if Some curr_hash \<noteq> data_hash_at_load self \<or> force then
            let self = self\<lparr>data_hash_at_load := Some curr_hash\<rparr> in
            and_then (on_world self (hset E w FileBackend (hashmap self) (node self) data_str))
              (\<lambda>(w, self) _.
                 on_world self
                   (sync_to_backends E w (backend_names E self) (hashmap self) (node self) data_str))
          else ((w, self), Inr ())))"

definition dump :: "env \<Rightarrow> obj_state \<Rightarrow> bool \<Rightarrow> bool \<Rightarrow> obj_state \<times> (error + unit)" where
  "dump E s purge force =
     and_then (dump_write E s force) (\<lambda>(w, self) _.
       if purge then ((w, self\<lparr>data := PAtom ANone, data_hash_at_load := None\<rparr>), Inr ())
       else ((w, self), Inr ()))"

text \<open>
  \<^verbatim>\<open>
  def flush_to_backends(self):
      if self._data is None:
          purge = True
      else:
          purge = False
      self._load()
      self._dump(purge=purge, force=True)
  \<close>
\<close>

definition flush_to_backends :: "env \<Rightarrow> obj_state \<Rightarrow> obj_state \<times> (error + unit)" where
  "flush_to_backends E s =
     (let purge = (data (snd s) = PAtom ANone) in
      and_then (load E s) (\<lambda>s _. dump E s purge True))"

text \<open>
  \<^verbatim>\<open>
  def __enter__(self):
      self._in_context = True
      return self

  def __exit__(self, *args):
      self._dump(purge=True)
      self._in_context = False
  \<close>
\<close>

definition enter :: "obj_state \<Rightarrow> obj_state" where
  "enter s = (case s of (w, self) \<Rightarrow> (w, self\<lparr>in_context := True\<rparr>))"

definition exit :: "env \<Rightarrow> obj_state \<Rightarrow> obj_state \<times> (error + unit)" where
  "exit E s =
     and_then (dump E s True False) (\<lambda>(w, self) _. ((w, self\<lparr>in_context := False\<rparr>), Inr ()))"

subsubsection \<open>The mutating methods\<close>

text \<open>
  What the three statements do to the loaded value. A dictionary is changed; a list or a
  set has \<^verbatim>\<open>clear\<close> but takes no string key; a scalar has neither; and a nested handle,
  new from \<^verbatim>\<open>loads\<close>, is in no edit scope of its own and fails its own assertion.
\<close>

definition py_setitem :: "pyval \<Rightarrow> string \<Rightarrow> pyval \<Rightarrow> error + pyval" where
  "py_setitem d key v =
     (case d of
        PDict kvs \<Rightarrow> Inr (PDict (dict_set kvs key v))
      | PLazy _ \<Rightarrow> Inl AssertionError
      | _ \<Rightarrow> Inl TypeError)"

definition py_delitem :: "pyval \<Rightarrow> string \<Rightarrow> error + pyval" where
  "py_delitem d key =
     (case d of
        PDict kvs \<Rightarrow> (if dict_has kvs key then Inr (PDict (AList.delete key kvs)) else Inl KeyError)
      | PLazy _ \<Rightarrow> Inl AssertionError
      | _ \<Rightarrow> Inl TypeError)"

definition py_clear :: "pyval \<Rightarrow> error + pyval" where
  "py_clear d =
     (case d of
        PDict _ \<Rightarrow> Inr (PDict [])
      | PList _ \<Rightarrow> Inr (PList [])
      | PSet _ \<Rightarrow> Inr (PSet [])
      | PLazy _ \<Rightarrow> Inl AssertionError
      | PAtom _ \<Rightarrow> Inl AttributeError)"

text \<open>
  A mutating method after its first assertion: load, then (where the method has it)
  \<^verbatim>\<open>assert self._data is not None\<close>, then the statement on the loaded value.
\<close>

definition update_data ::
  "env \<Rightarrow> obj_state \<Rightarrow> bool \<Rightarrow> (pyval \<Rightarrow> error + pyval) \<Rightarrow> obj_state \<times> (error + unit)" where
  "update_data E s asserted f =
     and_then (load E s) (\<lambda>(w, self) _.
       if asserted \<and> data self = PAtom ANone then ((w, self), Inl AssertionError)
       else
         (case f (data self) of
            Inl e \<Rightarrow> ((w, self), Inl e)
          | Inr d' \<Rightarrow> ((w, self\<lparr>data := d'\<rparr>), Inr ())))"

text \<open>
  \<^verbatim>\<open>
  def __setitem__(self, key, value):
      assert self._in_context
      self._load()
      assert self._data is not None
      self._data[key] = value

  def __delitem__(self, v):
      assert self._in_context
      self._load()
      assert self._data is not None
      del self._data[v]

  def clear(self):
      assert self._in_context
      self._load()
      self._data.clear()
  \<close>
\<close>

definition setitem :: "env \<Rightarrow> obj_state \<Rightarrow> string \<Rightarrow> pyval \<Rightarrow> obj_state \<times> (error + unit)" where
  "setitem E s key v =
     (if \<not> in_context (snd s) then (s, Inl AssertionError)
      else update_data E s True (\<lambda>d. py_setitem d key v))"

definition delitem :: "env \<Rightarrow> obj_state \<Rightarrow> string \<Rightarrow> obj_state \<times> (error + unit)" where
  "delitem E s key =
     (if \<not> in_context (snd s) then (s, Inl AssertionError)
      else update_data E s True (\<lambda>d. py_delitem d key))"

definition clear :: "env \<Rightarrow> obj_state \<Rightarrow> obj_state \<times> (error + unit)" where
  "clear E s =
     (if \<not> in_context (snd s) then (s, Inl AssertionError)
      else update_data E s False py_clear)"

text \<open>
  When the writes of \<^verbatim>\<open>_dump\<close> raise nothing: every name is a backend, and the document
  store, where it is named, knows the hashmap and reads the text as JSON.
\<close>

definition writable :: "env \<Rightarrow> string list \<Rightarrow> string \<Rightarrow> string \<Rightarrow> bool" where
  "writable E names name data_str =
     (hashlib_ok E \<and>
      list_all (\<lambda>b. b = ''file'' \<or>
                    (b = ''mongodb'' \<and> mongo_name_ok name \<and> json_read E data_str \<noteq> None))
        names)"

text \<open>The writes of one dump, in order: the file cache, then every named backend but \<^verbatim>\<open>file\<close>.\<close>

definition dump_calls :: "env \<Rightarrow> lazy_json \<Rightarrow> string \<Rightarrow> call list" where
  "dump_calls E self data_str =
     HSet ''file'' (hashmap self) (node self) data_str
     # map (\<lambda>b. HSet b (hashmap self) (node self) data_str)
         (filter (\<lambda>b. b \<noteq> ''file'') (backend_names E self))"

text \<open>A handle after the purge of \<^verbatim>\<open>_dump\<close> and the end of \<^verbatim>\<open>__exit__\<close>.\<close>

definition purged :: "lazy_json \<Rightarrow> lazy_json" where
  "purged self = self\<lparr>data := PAtom ANone, data_hash_at_load := None, in_context := False\<rparr>"

subsection \<open>\<^verbatim>\<open>MongoDBLazyJsonBackend.transaction_context\<close>\<close>

text \<open>
  \<^verbatim>\<open>
  @contextlib.contextmanager
  def transaction_context(self):
      try:
          if self.__class__._session is None:
              client = get_graph_data_mongodb_client()
              with client.start_session() as session:
                  with session.start_transaction():
                      self.__class__._session = session
                      yield self
                      self.__class__._session = None
          else:
              yield self
      finally:
          self.__class__._session = None
  \<close>
  The class attribute \<^verbatim>\<open>_session\<close> is the field \<open>session\<close>; sessions are numbered as the
  client starts them, \<open>opened\<close> are those started and not yet ended, and \<open>events\<close> is what
  the driver is asked to do, with the session that each operation of a body is given. The
  code of a scope's body is a list of statements: an operation on the backend, a
  \<^verbatim>\<open>raise\<close>, a nested \<^verbatim>\<open>with backend.transaction_context():\<close>, or a \<^verbatim>\<open>try\<close> whose
  \<^verbatim>\<open>except\<close> passes over every exception.
\<close>

datatype stmt = Work | Raise | Scope "stmt list" | Try "stmt list"

datatype event =
    Started nat
  | Committed nat
  | Aborted nat
  | Ended nat
  | Used "nat option"

record txn =
  session :: "nat option"
  opened :: "nat list"
  fresh :: nat
  events :: "event list"

definition txn_init :: txn where
  "txn_init = \<lparr>session = None, opened = [], fresh = 0, events = []\<rparr>"

definition start_session :: "txn \<Rightarrow> txn" where
  "start_session t =
     t\<lparr>fresh := Suc (fresh t), opened := opened t @ [fresh t],
       events := events t @ [Started (fresh t)], session := Some (fresh t)\<rparr>"

definition leave_session :: "nat \<Rightarrow> bool \<Rightarrow> txn \<Rightarrow> txn" where
  "leave_session s raised t =
     (if raised
      then t\<lparr>events := events t @ [Aborted s, Ended s], opened := removeAll s (opened t)\<rparr>
      else t\<lparr>session := None, events := events t @ [Committed s, Ended s],
             opened := removeAll s (opened t)\<rparr>)"

text \<open>The result of a statement is the state it leaves and whether an exception escapes it.\<close>

fun exec :: "txn \<Rightarrow> stmt \<Rightarrow> txn \<times> bool"
  and exec_block :: "txn \<Rightarrow> stmt list \<Rightarrow> txn \<times> bool" where
  "exec t Work = (t\<lparr>events := events t @ [Used (session t)]\<rparr>, False)"
| "exec t Raise = (t, True)"
| "exec t (Try body) = (fst (exec_block t body), False)"
| "exec t (Scope body) =
     (if session t = None then
        (case exec_block (start_session t) body of
           (t', raised) \<Rightarrow> ((leave_session (fresh t) raised t')\<lparr>session := None\<rparr>, raised))
      else
        (case exec_block t body of (t', raised) \<Rightarrow> (t'\<lparr>session := None\<rparr>, raised)))"
| "exec_block t [] = (t, False)"
| "exec_block t (x # xs) =
     (case exec t x of (t', True) \<Rightarrow> (t', True) | (t', False) \<Rightarrow> exec_block t' xs)"

text \<open>The largest number of sessions that a list of events has open at one time.\<close>

fun peak_open :: "nat \<Rightarrow> event list \<Rightarrow> nat" where
  "peak_open n [] = n"
| "peak_open n (Started s # evs) = max (Suc n) (peak_open (Suc n) evs)"
| "peak_open n (Ended s # evs) = peak_open (n - 1) evs"
| "peak_open n (e # evs) = max n (peak_open n evs)"

subsection \<open>\<^verbatim>\<open>sync_lazy_json_across_backends\<close>: \<^verbatim>\<open>_sync_hashmap\<close>\<close>

text \<open>
  A Python \<^verbatim>\<open>set\<close> of nodes is the list of its members without repetition. Which member
  \<^verbatim>\<open>set.pop()\<close> removes is up to the interpreter: the parameter \<open>pick\<close> chooses it, as an
  index into the members, for every set. Popping from the empty set raises \<^verbatim>\<open>KeyError\<close>.
\<close>

definition nodes_add :: "string list \<Rightarrow> string \<Rightarrow> string list" where
  "nodes_add s nd = (if nd \<in> set s then s else s @ [nd])"

fun pop_many ::
  "(string list \<Rightarrow> nat) \<Rightarrow> nat \<Rightarrow> string list \<Rightarrow> error + (string list \<times> string list)" where
  "pop_many pick 0 s = Inr ([], s)"
| "pop_many pick (Suc k) s =
     (if s = [] then Inl KeyError
      else
        let i = pick s mod length s in
        case pop_many pick k (take i s @ drop (Suc i) s) of
          Inl e \<Rightarrow> Inl e
        | Inr (popped, rest) \<Rightarrow> Inr (s ! i # popped, rest))"

text \<open>
  \<^verbatim>\<open>
  node not in backend_hashes[backend_name]
  or (backend_hashes[backend_name][node] != primary_hashes[node])
  \<close>
  for a node of \<^verbatim>\<open>primary_hashes\<close>.
\<close>

definition stale :: "(string \<times> string) list \<Rightarrow> (string \<times> string) list \<Rightarrow> string \<Rightarrow> bool" where
  "stale hashes primary_hashes nd =
     (\<not> dict_has hashes nd \<or> map_of hashes nd \<noteq> map_of primary_hashes nd)"

text \<open>
  The first loop, over \<^verbatim>\<open>CF_TICK_GRAPH_DATA_BACKENDS[1:]\<close>: read the hashes of the
  secondary, delete the nodes that the primary does not have, and collect the nodes that
  the secondary lacks or holds with another hash.
  \<^verbatim>\<open>
  backend = LAZY_JSON_BACKENDS[backend_name]()
  backend_hashes[backend_name] = backend.hgetall(hashmap, hashval=True)
  curr_nodes = set(backend_hashes[backend_name].keys())
  del_nodes = curr_nodes - primary_nodes
  if del_nodes:
      backend.hdel(hashmap, list(del_nodes))
  for node, hashval in primary_hashes.items():
      if node not in backend_hashes[backend_name] or (
          backend_hashes[backend_name][node] != primary_hashes[node]):
          all_nodes_to_get.add(node)
  \<close>
\<close>

type_synonym hashes = "(string \<times> string) list"

fun compare_backends ::
  "env \<Rightarrow> world \<Rightarrow> string \<Rightarrow> hashes \<Rightarrow> string list \<Rightarrow> (string \<times> hashes) list \<Rightarrow> string list \<Rightarrow>
   world \<times> (error + (string \<times> hashes) list \<times> string list)" where
  "compare_backends E w name primary_hashes [] backend_hashes all_nodes_to_get =
     (w, Inr (backend_hashes, all_nodes_to_get))"
| "compare_backends E w name primary_hashes (backend_name # rest) backend_hashes all_nodes_to_get =
     (case LAZY_JSON_BACKENDS backend_name of
        Inl e \<Rightarrow> (w, Inl e)
      | Inr backend \<Rightarrow>
          (case hgetall E w backend name True of
             Inl e \<Rightarrow> (w, Inl e)
           | Inr hashes \<Rightarrow>
               let del_nodes = filter (\<lambda>nd. \<not> dict_has primary_hashes nd) (map fst hashes) in
               case (if del_nodes \<noteq> [] then hdel E w backend name del_nodes else (w, Inr ())) of
                 (w', Inl e) \<Rightarrow> (w', Inl e)
               | (w', Inr _) \<Rightarrow>
                   compare_backends E w' name primary_hashes rest
                     (dict_set backend_hashes backend_name hashes)
                     (foldl nodes_add all_nodes_to_get
                        (filter (stale hashes primary_hashes) (map fst primary_hashes)))))"

text \<open>
  The inner loop of the second part: each secondary is sent the items of the batch that
  are stale for it, if there are any.
  \<^verbatim>\<open>
  _batch = {node: value for node, value in batch.items()
            if (node not in backend_hashes[backend_name]
                or (backend_hashes[backend_name][node] != primary_hashes[node]))}
  if _batch:
      backend = LAZY_JSON_BACKENDS[backend_name]()
      backend.hmset(hashmap, _batch)
  \<close>
\<close>

fun push_batch ::
  "env \<Rightarrow> world \<Rightarrow> string \<Rightarrow> hashes \<Rightarrow> (string \<times> hashes) list \<Rightarrow> (string \<times> string) list \<Rightarrow>
   string list \<Rightarrow> world \<times> (error + unit)" where
  "push_batch E w name primary_hashes backend_hashes batch [] = (w, Inr ())"
| "push_batch E w name primary_hashes backend_hashes batch (backend_name # rest) =
     (case dict_get backend_hashes backend_name of
        Inl e \<Rightarrow> (w, Inl e)
      | Inr hashes \<Rightarrow>
          let batch' = filter (\<lambda>(nd, _). stale hashes primary_hashes nd) batch in
          if batch' \<noteq> [] then
            (case LAZY_JSON_BACKENDS backend_name of
               Inl e \<Rightarrow> (w, Inl e)
             | Inr backend \<Rightarrow>
                 (case hmset E w backend name batch' of
                    (w', Inl e) \<Rightarrow> (w', Inl e)
                  | (w', Inr _) \<Rightarrow> push_batch E w' name primary_hashes backend_hashes batch rest))
          else push_batch E w name primary_hashes backend_hashes batch rest)"

text \<open>
  The \<^verbatim>\<open>while\<close> loop. It need not end, so its result is optional: \<open>None\<close> is a run that
  never returns.
  \<^verbatim>\<open>
  while all_nodes_to_get:
      nodes_to_get = [all_nodes_to_get.pop()
                      for _ in range(min(len(all_nodes_to_get), n_per_batch))]
      batch = {k: v for k, v in zip(nodes_to_get,
                                    primary_backend.hmget(hashmap, nodes_to_get))}
      for backend_name in CF_TICK_GRAPH_DATA_BACKENDS[1:]:
          ...
  \<close>
\<close>

partial_function (option) fetch_loop ::
  "env \<Rightarrow> (string list \<Rightarrow> nat) \<Rightarrow> string \<Rightarrow> int \<Rightarrow> backend \<Rightarrow> hashes \<Rightarrow> (string \<times> hashes) list \<Rightarrow>
   string list \<Rightarrow> world \<Rightarrow> (world \<times> (error + unit)) option" where
  "fetch_loop E pick name n_per_batch primary_backend primary_hashes backend_hashes
     all_nodes_to_get w =
     (if all_nodes_to_get = [] then Some (w, Inr ())
      else
        case pop_many pick (nat (min (int (length all_nodes_to_get)) n_per_batch))
               all_nodes_to_get of
          Inl e \<Rightarrow> Some (w, Inl e)
        | Inr (nodes_to_get, remaining) \<Rightarrow>
            (case hmget E w primary_backend name nodes_to_get of
               (w1, Inl e) \<Rightarrow> Some (w1, Inl e)
             | (w1, Inr texts) \<Rightarrow>
                 (case push_batch E w1 name primary_hashes backend_hashes
                         (dict_of_pairs (zip nodes_to_get texts)) (tl (BACKENDS E)) of
                    (w2, Inl e) \<Rightarrow> Some (w2, Inl e)
                  | (w2, Inr _) \<Rightarrow>
                      fetch_loop E pick name n_per_batch primary_backend primary_hashes
                        backend_hashes remaining w2)))"

text \<open>
  \<^verbatim>\<open>_sync_hashmap(hashmap, n_per_batch, primary_backend)\<close>
\<close>

definition sync_hashmap ::
  "env \<Rightarrow> (string list \<Rightarrow> nat) \<Rightarrow> world \<Rightarrow> string \<Rightarrow> int \<Rightarrow> backend \<Rightarrow>
   (world \<times> (error + unit)) option" where
  "sync_hashmap E pick w name n_per_batch primary_backend =
     (case hgetall E w primary_backend name True of
        Inl e \<Rightarrow> Some (w, Inl e)
      | Inr primary_hashes \<Rightarrow>
          (case compare_backends E w name primary_hashes (tl (BACKENDS E)) [] [] of
             (w1, Inl e) \<Rightarrow> Some (w1, Inl e)
           | (w1, Inr (backend_hashes, all_nodes_to_get)) \<Rightarrow>
               fetch_loop E pick name n_per_batch primary_backend primary_hashes backend_hashes
                 all_nodes_to_get w1))"

text \<open>The keys that a call names, without the values it carries.\<close>

datatype call_keys = Get string "string list" | Put string "string list" | Del string "string list"

definition keys_of_call :: "call \<Rightarrow> call_keys" where
  "keys_of_call c =
     (case c of
        HMGet b _ ks \<Rightarrow> Get b ks
      | HMSet b _ m \<Rightarrow> Put b (map fst m)
      | HSet b _ k _ \<Rightarrow> Put b [k]
      | HDel b _ ks \<Rightarrow> Del b ks)"

text \<open>
  What one batch is expected to ask of the backends: a multi-get of the batch on the
  primary, then for each secondary in turn, with the hashes read from it, a multi-set of
  the nodes of the batch that are stale for it, and nothing where there are none.
\<close>

definition pushes :: "hashes \<Rightarrow> (string \<times> hashes) list \<Rightarrow> string list \<Rightarrow> string list \<Rightarrow> call_keys list" where
  "pushes primary_hashes backend_hashes secondaries batch =
     concat (map (\<lambda>backend_name.
                    case map_of backend_hashes backend_name of
                      None \<Rightarrow> []
                    | Some hashes \<Rightarrow>
                        (if filter (stale hashes primary_hashes) batch = [] then []
                         else [Put backend_name (filter (stale hashes primary_hashes) batch)]))
              secondaries)"

definition batch_calls ::
  "string \<Rightarrow> hashes \<Rightarrow> (string \<times> hashes) list \<Rightarrow> string list \<Rightarrow> string list \<Rightarrow> call_keys list" where
  "batch_calls primary_name primary_hashes backend_hashes secondaries batch =
     Get primary_name batch # pushes primary_hashes backend_hashes secondaries batch"

text \<open>The sizes of the batches of \<open>m\<close> nodes taken \<open>n\<close> at a time.\<close>

definition batch_sizes :: "nat \<Rightarrow> nat \<Rightarrow> nat list" where
  "batch_sizes m n = replicate (m div n) n @ (if m mod n = 0 then [] else [m mod n])"

subsection \<open>Sample data for the closed examples\<close>

text \<open>
  A small environment: the SHA-1 digests of a few file names, four JSON texts as
  \<^verbatim>\<open>rapidjson\<close> writes them with \<^verbatim>\<open>indent=1\<close> (and one compact text that it reads but
  does not write), their trees and their SHA-256 digests. Strings outside the tables get
  a digest of zeros, are read as no JSON and written as \<^verbatim>\<open>null\<close>.
\<close>

definition sha1_sample :: "string \<Rightarrow> string" where
  "sha1_sample s =
     (if s = ''a.json'' then ''d277c45cdc239ab5dcf261d94274317b0a5d05da''
      else if s = ''b.json'' then ''90194f490d745031b0589118743fab9ce2ab6969''
      else if s = ''c.json'' then ''ce8d5a981159d2d581f8609b37200d8126074671''
      else if s = ''d.json'' then ''22760267119d85152c21691a5546583ebc6c8a60''
      else if s = ''e.json'' then ''9b2060d12e13f54906d1926b3f8e2330fa4b41e0''
      else if s = ''a/b.json'' then ''565199c2edff2de860584b52e265bda35950c4d8''
      else if s = ''numpy.json'' then ''4dc36c40dc3eaea321aabbb24b0838e1eba019a5''
      else replicate 40 (CHR ''0''))"

definition text_empty :: string where
  "text_empty = ''{}''"

definition text_a1 :: string where
  \<open>text_a1 = ''{'' @ [CHR 0x0A] @ '' "a": 1'' @ [CHR 0x0A] @ ''}''\<close>

definition text_a2 :: string where
  \<open>text_a2 = ''{'' @ [CHR 0x0A] @ '' "a": 2'' @ [CHR 0x0A] @ ''}''\<close>

definition text_a3 :: string where
  \<open>text_a3 = ''{'' @ [CHR 0x0A] @ '' "a": 3'' @ [CHR 0x0A] @ ''}''\<close>

definition text_a1_compact :: string where
  \<open>text_a1_compact = ''{"a":1}''\<close>

definition sha256_sample :: "string \<Rightarrow> string" where
  "sha256_sample s =
     (if s = text_empty then ''44136fa355b3678a1146ad16f7e8649e94fb4fc21fe77e8310c060f61caaff8a''
      else if s = text_a1 then ''4c7b92d70b8f46817ada0eac124a21649225537837d9925d84548dfea748c20e''
      else if s = text_a2 then ''f0cce8cf4cda1ebf24fac0e2497d1308e20d8a652827c042d324ae50654c2631''
      else if s = text_a3 then ''cf7b4ce4e7cbbdd114a5464c974dba8e4c058cf94f333b8f5ec470038e59b8e7''
      else if s = text_a1_compact
        then ''015abd7f5cc57a2dd94b7590f04ad8084273905ee33ec5cebeae62276a97f862''
      else replicate 64 (CHR ''0''))"

definition json_write_sample :: "json \<Rightarrow> string" where
  "json_write_sample j =
     (if j = JObj [] then text_empty
      else if j = JObj [(''a'', JInt 1)] then text_a1
      else if j = JObj [(''a'', JInt 2)] then text_a2
      else if j = JObj [(''a'', JInt 3)] then text_a3
      else ''null'')"

definition json_read_sample :: "string \<Rightarrow> json option" where
  "json_read_sample s =
     (if s = text_empty then Some (JObj [])
      else if s = text_a1 \<or> s = text_a1_compact then Some (JObj [(''a'', JInt 1)])
      else if s = text_a2 then Some (JObj [(''a'', JInt 2)])
      else if s = text_a3 then Some (JObj [(''a'', JInt 3)])
      else None)"

definition env_sample :: "string list \<Rightarrow> env" where
  "env_sample bs =
     \<lparr>sha1_hex = sha1_sample, sha256_hex = sha256_sample, json_write = json_write_sample,
      json_read = json_read_sample, BACKENDS = bs\<rparr>"

definition world_empty :: world where
  "world_empty = \<lparr>files = [], cf_graph = (\<lambda>_. []), trace = []\<rparr>"

text \<open>A loaded document \<^verbatim>\<open>pr_json/numpy.json\<close> with the value \<^verbatim>\<open>{"a": 1}\<close> and its baseline.\<close>

definition doc_sample :: lazy_json where
  "doc_sample =
     (new_handle ''pr_json/numpy.json'')
       \<lparr>data := PDict [(''a'', PAtom (AInt 1))],
        data_hash_at_load := Some (sha256_sample text_a1)\<rparr>"

text \<open>The same document after an edit to \<^verbatim>\<open>{"a": 2}\<close>, its baseline still that of the load.\<close>

definition doc_edited_sample :: lazy_json where
  "doc_edited_sample = doc_sample\<lparr>data := PDict [(''a'', PAtom (AInt 2))]\<rparr>"

text \<open>
  Five documents \<^verbatim>\<open>a\<close> to \<^verbatim>\<open>e\<close> of the hashmap \<^verbatim>\<open>pr_json\<close> in a file tree at their sharded
  paths, the hashes that the file backend reports for them, and a \<open>pick\<close> that pops the
  first member of every set.
\<close>

definition files_sample :: "(string \<times> string) list" where
  "files_sample =
     [(''pr_json/d/2/7/7/c/a.json'', text_a1),
      (''pr_json/9/0/1/9/4/b.json'', text_a2),
      (''pr_json/c/e/8/d/5/c.json'', text_a3),
      (''pr_json/2/2/7/6/0/d.json'', text_a1),
      (''pr_json/9/b/2/0/6/e.json'', text_a2)]"

definition world_sample :: world where
  "world_sample = \<lparr>files = files_sample, cf_graph = (\<lambda>_. []), trace = []\<rparr>"

definition hashes_sample :: "(string \<times> string) list" where
  "hashes_sample =
     [(''a'', sha256_sample text_a1), (''b'', sha256_sample text_a2),
      (''c'', sha256_sample text_a3), (''d'', sha256_sample text_a1),
      (''e'', sha256_sample text_a2)]"

definition pick_first :: "string list \<Rightarrow> nat" where
  "pick_first s = 0"

section \<open>Properties\<close>

lemma takeWhile_no_sep:
  "CHR ''/'' \<notin> set t \<Longrightarrow> takeWhile (\<lambda>c. c \<noteq> CHR ''/'') (rev t @ CHR ''/'' # r) = rev t"
  by (induction t rule: rev_induct) auto

lemma os_path_split_dir_file:
  assumes "CHR ''/'' \<notin> set t"
  shows "os_path_split (d @ ''/'' @ t) =
    (if d = replicate (length d) (CHR ''/'') then d @ ''/'' else rstrip_sep d, t)"
proof -
  have tw: "takeWhile (\<lambda>c. c \<noteq> CHR ''/'') (rev (d @ ''/'' @ t)) = rev t"
    using takeWhile_no_sep [OF assms, of "rev d"] by simp
  have rs: "rstrip_sep (d @ ''/'') = rstrip_sep d"
    by (simp add: rstrip_sep_def)
  have rep: "d @ ''/'' = replicate (Suc (length d)) (CHR ''/'') \<longleftrightarrow> d = replicate (length d) (CHR ''/'')"
    by (metis append1_eq_conv replicate_Suc replicate_append_same)
  show ?thesis
    unfolding os_path_split_def Let_def tw
    using rs rep by (simp add: Let_def)
qed

lemma rstrip_sep_id: "d = [] \<or> last d \<noteq> CHR ''/'' \<Longrightarrow> rstrip_sep d = d"
  by (cases d rule: rev_cases) (auto simp: rstrip_sep_def)

lemma upt5: "[0..<5] = [0,1,2,3,4]"
  by (simp add: upt_rec)

lemma hexdigest_no_sep: "is_hexdigest n d \<Longrightarrow> CHR ''/'' \<notin> set d"
  by (auto simp: is_hexdigest_def list_all_iff)

lemma join_shards:
  assumes "\<not> startswith_sep f" "c0 \<noteq> CHR ''/''" "c1 \<noteq> CHR ''/''" "c2 \<noteq> CHR ''/''"
    "c3 \<noteq> CHR ''/''" "c4 \<noteq> CHR ''/''"
  shows "os_path_join d [[c0],[c1],[c2],[c3],[c4],f] =
     (if d = [] \<or> endswith_sep d then d else d @ ''/'')
       @ [c0] @ ''/'' @ [c1] @ ''/'' @ [c2] @ ''/'' @ [c3] @ ''/'' @ [c4] @ ''/'' @ f"
  using assms by (simp add: os_path_join_def join_step_def startswith_sep_def endswith_sep_def)

lemma os_path_split_node:
  assumes key: "CHR ''/'' \<notin> set key"
    and name: "hm = [] \<or> last hm \<noteq> CHR ''/''"
  shows "os_path_split (hm @ ''/'' @ key @ ''.json'') =
      (if hm = [] then ''/'' else hm, key @ ''.json'')"
proof -
  have f: "CHR ''/'' \<notin> set (key @ ''.json'')" using key by simp
  show ?thesis
  proof (cases "hm = []")
    case True
    then show ?thesis using os_path_split_dir_file [OF f, of "[]"] by simp
  next
    case False
    with name have l: "last hm \<noteq> CHR ''/''" by simp
    have "hm \<noteq> replicate (length hm) (CHR ''/'')"
    proof
      assume e: "hm = replicate (length hm) (CHR ''/'')"
      have "last (replicate (length hm) (CHR ''/'')) = CHR ''/''" using False by simp
      with e l show False by simp
    qed
    with False show ?thesis
      using os_path_split_dir_file [OF f, of hm] rstrip_sep_id [OF name] by simp
  qed
qed

text \<open>
  \<^bold>\<open>C7\<close> (as amended). For every hashmap name that does not end in a slash and every key
  that contains no slash, with \<open>h\<close> the SHA-1 hex digest of the string \<^verbatim>\<open><key>.json\<close>:
  the document of the catch-all hashmap \<^verbatim>\<open>lazy_json\<close> is at \<^verbatim>\<open><key>.json\<close>, with no shard
  directory, and the document of any other hashmap is at
  \<^verbatim>\<open><hashmap>/<h0>/<h1>/<h2>/<h3>/<h4>/<key>.json\<close>. The path is a function of the two
  names alone: \<open>node_path\<close> takes no file system, so no directory is read.
\<close>

theorem node_path_layout:
  assumes key: "CHR ''/'' \<notin> set key"
    and name: "hm = [] \<or> last hm \<noteq> CHR ''/''"
    and dig: "is_hexdigest 40 (sha1 (key @ ''.json''))"
  shows "node_path sha1 hm key =
    Inr (if hm = ''lazy_json'' then key @ ''.json''
         else let h = sha1 (key @ ''.json'') in
           hm @ ''/'' @ [h ! 0] @ ''/'' @ [h ! 1] @ ''/'' @ [h ! 2] @ ''/'' @ [h ! 3]
             @ ''/'' @ [h ! 4] @ ''/'' @ key @ ''.json'')"
proof -
  let ?f = "key @ ''.json''"
  let ?h = "sha1 ?f"
  have nf: "\<not> startswith_sep ?f"
    using key by (cases key) (auto simp: startswith_sep_def)
  have len: "length ?h = 40"
    using dig by (simp add: is_hexdigest_def)
  have ns: "\<And>i. i < 40 \<Longrightarrow> ?h ! i \<noteq> CHR ''/''"
    using hexdigest_no_sep [OF dig] len by (metis nth_mem)
  have sl: "slice_to ?h 5 = take 5 ?h"
    by (simp add: slice_to_def)
  note sp = os_path_split_node [OF key name]
  show ?thesis
  proof (cases "hm = []")
    case True
    show ?thesis
      unfolding node_path_def get_sharded_path_def
      using True sp sl len nf ns
      by (simp add: upt5 join_shards endswith_sep_def Let_def)
  next
    case False
    then have e: "\<not> endswith_sep hm"
      using name by (cases hm rule: rev_cases) (auto simp: endswith_sep_def)
    show ?thesis
      unfolding node_path_def get_sharded_path_def
      using False sp sl len nf ns e
      by (simp add: upt5 join_shards Let_def)
  qed
qed

theorem node_path_layout_witness:
  "node_path sha1_sample ''pr_json'' ''numpy'' = Inr ''pr_json/4/d/c/3/6/numpy.json''
   \<and> node_path sha1_sample ''lazy_json'' ''numpy'' = Inr ''numpy.json''"
  using node_path_layout [of "''numpy''" "''pr_json''" sha1_sample]
    node_path_layout [of "''numpy''" "''lazy_json''" sha1_sample]
  by (simp add: sha1_sample_def is_hexdigest_def)

text \<open>
  The claim as stated, for every hashmap name and every key, fails at the key \<^verbatim>\<open>a/b\<close>:
  \<^verbatim>\<open>os.path.split\<close> cuts \<^verbatim>\<open>pr_json/a/b.json\<close> at its last slash, so the shard directories
  come from the digest of \<^verbatim>\<open>b.json\<close> and lie below \<^verbatim>\<open>pr_json/a\<close>, and with this key the
  document of the catch-all hashmap is not at the root. It also fails at the hashmap name
  \<^verbatim>\<open>pr_json/\<close>: \<^verbatim>\<open>os.path.split\<close> strips the slashes at the end of the directory, so the
  path is not the name followed by \<^verbatim>\<open>/<h0>/...\<close>.
\<close>

theorem node_path_slash_key_counterexample:
  "node_path sha1_sample ''pr_json'' ''a/b'' = Inr ''pr_json/a/9/0/1/9/4/b.json''
   \<and> node_path sha1_sample ''pr_json'' ''a/b'' \<noteq> Inr ''pr_json/5/6/5/1/9/a/b.json''
   \<and> node_path sha1_sample ''lazy_json'' ''a/b'' = Inr ''lazy_json/a/9/0/1/9/4/b.json''
   \<and> node_path sha1_sample ''lazy_json'' ''a/b'' \<noteq> Inr ''a/b.json''
   \<and> node_path sha1_sample ''pr_json/'' ''b'' = Inr ''pr_json/9/0/1/9/4/b.json''
   \<and> node_path sha1_sample ''pr_json/'' ''b'' \<noteq> Inr ''pr_json//9/0/1/9/4/b.json''"
  by (simp add: node_path_def get_sharded_path_def os_path_split_def rstrip_sep_def
      slice_to_def sha1_sample_def os_path_join_def join_step_def startswith_sep_def
      endswith_sep_def upt5 Let_def)

subsection \<open>Backends\<close>

lemma count_node_distinct:
  "distinct (map fst c) \<Longrightarrow>
   length (filter (\<lambda>(n, _). n = key) c) = (if key \<in> fst ` set c then 1 else 0)"
  by (induction c) (auto simp: image_iff)

lemma count_node_update:
  "distinct (map fst c) \<Longrightarrow> length (filter (\<lambda>(n, _). n = key) (AList.update key d c)) = 1"
  using count_node_distinct [of "AList.update key d c" key]
  by (simp add: distinct_update dom_update)

lemma log_call_simps [simp]:
  "files (log_call c w) = files w" "cf_graph (log_call c w) = cf_graph w"
  "trace (log_call c w) = trace w @ [c]"
  by (simp_all add: log_call_def)

lemma set_collection_simps [simp]:
  "files (set_collection w n c) = files w"
  "cf_graph (set_collection w n c) n' = (if n' = n then c else cf_graph w n')"
  "trace (set_collection w n c) = trace w"
  by (simp_all add: set_collection_def)

lemmas sample_defs = env_sample_def sha1_sample_def sha256_sample_def json_write_sample_def
  json_read_sample_def text_empty_def text_a1_def text_a2_def text_a3_def text_a1_compact_def
  world_empty_def

lemmas path_defs = file_path_def node_path_def get_sharded_path_def os_path_split_def
  rstrip_sep_def slice_to_def os_path_join_def join_step_def startswith_sep_def
  endswith_sep_def upt5 Let_def

lemmas codec_defs = dumps_def dumps_tree_def json_loads_def default_hook_def default_def
  no_hook_def sequence_items_def json_of_atom_def atom_of_json_def dict_of_pairs_def
  dict_set_def dict_get_def dict_has_def

lemmas backend_defs = hsetnx_def hexists_def hset_def hget_def hmset_def hmget_def hdel_def
  hgetall_def hkeys_def file_hexists_def file_hset_def file_hget_def file_hmget_def
  file_hgetall_def file_hdel_def mongo_hexists_def mongo_hset_def mongo_hget_def
  mongo_hmset_def mongo_hmget_def mongo_hgetall_def mongo_hdel_def mongo_hkeys_def
  mongo_doc_of_def mongo_dumps_def mongo_name_ok_def CF_TICK_GRAPH_DATA_HASHMAPS_def
  and_then_def pure_def on_world_def backend_name_of_def LAZY_JSON_BACKENDS_def
  PRIMARY_BACKEND_def

lemma hashlib_ok_sample: "hashlib_ok (env_sample bs)"
  by (simp add: hashlib_ok_def env_sample_def sha1_sample_def is_hexdigest_def list_all_iff)

text \<open>
  \<^bold>\<open>C6\<close>. On either backend, \<^verbatim>\<open>hsetnx(name, key, v1)\<close> for a key that the backend does not
  hold (the collection indexed uniquely by \<^verbatim>\<open>node\<close>), where writing \<open>v1\<close> raises nothing,
  inserts \<open>v1\<close> and returns \<^verbatim>\<open>True\<close>: the key exists afterwards and \<^verbatim>\<open>hget\<close> gives what
  the backend stores for \<open>v1\<close>. A second \<^verbatim>\<open>hsetnx(name, key, v2)\<close> returns \<^verbatim>\<open>False\<close> and
  leaves the whole state as it was, so the stored value is still that of \<open>v1\<close>.
\<close>

theorem hsetnx_first_write_wins:
  assumes absent: "hexists E w b name key = Inr False"
    and uniq: "distinct (map fst (cf_graph w name))"
    and ok: "snd (hset E w b name key v1) = Inr ()"
  shows "\<exists>w1. hsetnx E w b name key v1 = (w1, Inr True)
            \<and> hexists E w1 b name key = Inr True
            \<and> hget E w1 b name key = stored_text E b v1
            \<and> hsetnx E w1 b name key v2 = (w1, Inr False)"
proof (cases b)
  case FileBackend
  from absent FileBackend obtain p where p: "file_path E name key = Inr p"
    by (auto simp: hexists_def file_hexists_def split: sum.splits)
  let ?w1 = "(log_call (HSet ''file'' name key v1) w)\<lparr>files := AList.update p v1 (files w)\<rparr>"
  have 1: "hset E w FileBackend name key v1 = (?w1, Inr ())"
    using p by (simp add: hset_def file_hset_def backend_name_of_def Let_def)
  have 2: "hexists E ?w1 FileBackend name key = Inr True"
    using p by (simp add: hexists_def file_hexists_def update_conv')
  have 3: "hget E ?w1 FileBackend name key = Inr v1"
    using p by (simp add: hget_def file_hget_def update_conv')
  show ?thesis
    using absent 1 2 3 FileBackend
    by (simp add: hsetnx_def and_then_def stored_text_def)
next
  case MongoDBBackend
  from absent MongoDBBackend have nm: "mongo_name_ok name"
    by (auto simp: hexists_def mongo_hexists_def split: if_splits)
  from ok MongoDBBackend nm obtain d where d: "mongo_doc_of E v1 = Inr d"
    by (cases "mongo_doc_of E v1") (auto simp: hset_def mongo_hset_def Let_def)
  let ?c = "AList.update key d (cf_graph w name)"
  let ?w1 = "set_collection (log_call (HSet ''mongodb'' name key v1) w) name ?c"
  have 1: "hset E w MongoDBBackend name key v1 = (?w1, Inr ())"
    using d nm by (simp add: hset_def mongo_hset_def backend_name_of_def Let_def)
  have 2: "hexists E ?w1 MongoDBBackend name key = Inr True"
    using nm count_node_update [OF uniq] by (simp add: hexists_def mongo_hexists_def)
  have 3: "hget E ?w1 MongoDBBackend name key = stored_text E MongoDBBackend v1"
    using nm d
    by (auto simp: hget_def mongo_hget_def update_conv' stored_text_def mongo_doc_of_def
        mongo_dumps_def split: sum.splits)
  show ?thesis
    using absent 1 2 3 MongoDBBackend
    by (simp add: hsetnx_def and_then_def)
qed



theorem hsetnx_first_write_wins_witness:
  "(\<exists>w1. hsetnx (env_sample [''file'']) world_empty FileBackend ''pr_json'' ''numpy'' text_a1
           = (w1, Inr True)
        \<and> hexists (env_sample [''file'']) w1 FileBackend ''pr_json'' ''numpy'' = Inr True
        \<and> hget (env_sample [''file'']) w1 FileBackend ''pr_json'' ''numpy'' = Inr text_a1
        \<and> hsetnx (env_sample [''file'']) w1 FileBackend ''pr_json'' ''numpy'' text_a2
           = (w1, Inr False))
   \<and> (\<exists>w1. hsetnx (env_sample [''file'']) world_empty MongoDBBackend ''pr_json'' ''numpy''
             text_a1_compact = (w1, Inr True)
        \<and> hexists (env_sample [''file'']) w1 MongoDBBackend ''pr_json'' ''numpy'' = Inr True
        \<and> hget (env_sample [''file'']) w1 MongoDBBackend ''pr_json'' ''numpy'' = Inr text_a1
        \<and> hsetnx (env_sample [''file'']) w1 MongoDBBackend ''pr_json'' ''numpy'' text_a2
           = (w1, Inr False))"
proof -
  let ?E = "env_sample [''file'']"
  have f1: "hexists ?E world_empty FileBackend ''pr_json'' ''numpy'' = Inr False"
    by (simp add: hexists_def file_hexists_def path_defs sample_defs)
  have f2: "distinct (map fst (cf_graph world_empty ''pr_json''))"
    by (simp add: world_empty_def)
  have f3: "snd (hset ?E world_empty FileBackend ''pr_json'' ''numpy'' text_a1) = Inr ()"
    by (simp add: hset_def file_hset_def path_defs sample_defs)
  have m1: "hexists ?E world_empty MongoDBBackend ''pr_json'' ''numpy'' = Inr False"
    by (simp add: hexists_def mongo_hexists_def mongo_name_ok_def CF_TICK_GRAPH_DATA_HASHMAPS_def
        world_empty_def)
  have m3: "snd (hset ?E world_empty MongoDBBackend ''pr_json'' ''numpy'' text_a1_compact) = Inr ()"
    by (simp add: hset_def mongo_hset_def mongo_doc_of_def mongo_name_ok_def
        CF_TICK_GRAPH_DATA_HASHMAPS_def codec_defs sample_defs)
  have st: "stored_text ?E MongoDBBackend text_a1_compact = Inr text_a1"
    by (simp add: stored_text_def codec_defs sample_defs)
  show ?thesis
    using hsetnx_first_write_wins [OF f1 f2 f3, of text_a2]
      hsetnx_first_write_wins [OF m1 f2 m3, of text_a2] st
    by (simp add: stored_text_def)
qed

subsection \<open>Decoding\<close>

lemma file_path_ok:
  assumes "hashlib_ok E"
  shows "\<exists>p. file_path E name key = Inr p"
proof -
  have "length (slice_to (sha1_hex E s) 5) = 5" for s
    using assms by (simp add: hashlib_ok_def is_hexdigest_def slice_to_def)
  then show ?thesis
    by (simp add: file_path_def node_path_def get_sharded_path_def Let_def split: prod.split)
qed

lemma dumps_empty: "dumps E (PDict []) = Inr (json_write E (JObj []))"
  by (simp add: dumps_def dumps_tree_def sequence_items_def)

lemma hsetnx_file_ok:
  assumes "hashlib_ok E"
  shows "\<exists>w' r. hsetnx E w FileBackend name key v = (w', Inr r)"
proof -
  from file_path_ok [OF assms] obtain p where p: "file_path E name key = Inr p" by blast
  show ?thesis
    using p
    by (cases "map_of (files w) p")
      (auto simp: hsetnx_def hexists_def file_hexists_def hset_def file_hset_def and_then_def
        Let_def)
qed

lemma LazyJson_ok:
  assumes "hashlib_ok E"
  shows "\<exists>w'. LazyJson E w f = (w', Inr (new_handle f))"
proof (cases "PRIMARY_BACKEND E = ''file''")
  case True
  obtain w' r where
    "hsetnx E w FileBackend (hashmap (new_handle f)) (node (new_handle f)) (json_write E (JObj []))
       = (w', Inr r)"
    using hsetnx_file_ok [OF assms] by blast
  with True show ?thesis
    by (simp add: LazyJson_def dumps_empty and_then_def Let_def)
next
  case False
  then show ?thesis by (simp add: LazyJson_def Let_def)
qed

lemma file_name_new_handle [simp]: "file_name (new_handle f) = f"
  by (simp add: new_handle_def Let_def)

lemma keys_foldl_dict_set:
  "fst ` set (foldl (\<lambda>d (k, v). dict_set d k v) d0 kvs) = fst ` set d0 \<union> fst ` set kvs"
proof (induction kvs arbitrary: d0)
  case Nil
  then show ?case by simp
next
  case (Cons kv kvs)
  obtain k v where kv: "kv = (k, v)" by (cases kv)
  have "fst ` set (dict_set d0 k v) = insert k (fst ` set d0)"
    by (simp add: dict_set_def dom_update)
  with Cons.IH [of "dict_set d0 k v"] kv show ?case by auto
qed

lemma dict_has_iff: "dict_has d k \<longleftrightarrow> k \<in> fst ` set d"
  by (simp add: dict_has_def map_of_eq_None_iff)

lemma dict_has_of_pairs: "dict_has (dict_of_pairs kvs) k \<longleftrightarrow> k \<in> fst ` set kvs"
  by (simp add: dict_has_iff dict_of_pairs_def keys_foldl_dict_set)

lemma and_then_Inr:
  "and_then r f = (s', Inr y) \<longleftrightarrow> (\<exists>s x. r = (s, Inr x) \<and> f s x = (s', Inr y))"
  by (cases r; cases "snd r") (auto simp: and_then_def)

lemma decode_items_keys:
  "decode_items E w kjs = (w1, Inr items) \<Longrightarrow> map fst items = map fst kjs"
proof (induction kjs arbitrary: w w1 items)
  case Nil
  then show ?case by simp
next
  case (Cons kj kjs)
  obtain k j where kj: "kj = (k, j)" by (cases kj)
  from Cons.prems kj obtain wa x wb rest where
    "decode_items E wa kjs = (wb, Inr rest)" and "items = (k, x) # rest"
    by (auto simp: and_then_Inr)
  with Cons.IH kj show ?case by auto
qed

lemma py_set_scalars: "py_set (PList (map PAtom xs)) = Inr (PSet (foldl set_add [] xs))"
proof -
  have "sequence (map atom_of (map PAtom xs)) = Inr xs"
    by (induction xs) (simp_all add: atom_of_def)
  then show ?thesis by (simp add: py_set_def)
qed

lemma py_set_not_dict: "py_set v \<noteq> Inr (PDict kvs)"
proof -
  have "map_sum id (\<lambda>as. PSet (foldl set_add [] as)) r \<noteq> Inr (PDict kvs)" for r
    by (cases r) auto
  then show ?thesis
    by (auto simp: py_set_def split: pyval.splits atom.splits)
qed

lemma object_hook_not_dict:
  assumes "dict_has dct ''__lazy_json__'' \<or> dict_has dct ''__set__''"
  shows "snd (object_hook E w dct) \<noteq> Inr (PDict kvs)"
  using assms py_set_not_dict
  by (auto simp: object_hook_def and_then_def split: sum.splits pyval.splits atom.splits prod.splits)

lemmas lazy_defs = LazyJson_def new_handle_def strip_json_def object_hook_def loads_def
  py_set_def atom_of_def set_add_def py_eq_def atom_norm_def

text \<open>
  \<^bold>\<open>C10\<close> (as amended). Decoding dispatches on the presence of the marker keys, and
  \<^verbatim>\<open>__lazy_json__\<close> is looked for first. Let the members of a JSON object decode to
  \<open>items\<close>. If the dictionary of the items holds a string under \<^verbatim>\<open>__lazy_json__\<close>, the object
  decodes to a handle bound to that string, whatever its other members are. If the object
  has the key \<^verbatim>\<open>__set__\<close> and not \<^verbatim>\<open>__lazy_json__\<close>, then whatever the value of \<^verbatim>\<open>__set__\<close> is,
  it decodes to \<^verbatim>\<open>set(elements)\<close> of its member \<^verbatim>\<open>elements\<close>, which for an array of scalars is
  the set of these scalars, and raises \<^verbatim>\<open>KeyError\<close> when there is no such member. An object
  with either marker key never decodes to a dictionary.
\<close>

theorem decode_marker_dispatch:
  assumes lib: "hashlib_ok E"
    and members: "decode_items E w kjs = (w1, Inr items)"
  shows
    "(dict_get (dict_of_pairs items) ''__lazy_json__'' = Inr (PAtom (AStr f)) \<longrightarrow>
        (\<exists>w2. decode E w (JObj kjs) = (w2, Inr (PLazy f))))
     \<and> (''__lazy_json__'' \<notin> fst ` set kjs \<and> ''__set__'' \<in> fst ` set kjs \<longrightarrow>
          decode E w (JObj kjs) =
            (w1, case dict_get (dict_of_pairs items) ''elements'' of
                   Inl e \<Rightarrow> Inl KeyError
                 | Inr elements \<Rightarrow> py_set elements))
     \<and> py_set (PList (map PAtom xs)) = Inr (PSet (foldl set_add [] xs))
     \<and> (''__lazy_json__'' \<in> fst ` set kjs \<or> ''__set__'' \<in> fst ` set kjs \<longrightarrow>
          snd (decode E w (JObj kjs)) \<noteq> Inr (PDict kvs))"
proof -
  let ?d = "dict_of_pairs items"
  have keys: "fst ` set items = fst ` set kjs"
    using decode_items_keys [OF members] by (metis set_map)
  have dec: "decode E w (JObj kjs) = object_hook E w1 ?d"
    using members by (simp add: and_then_def)
  have 1: "\<exists>w2. object_hook E w1 ?d = (w2, Inr (PLazy f))"
    if "dict_get ?d ''__lazy_json__'' = Inr (PAtom (AStr f))"
  proof -
    from that have "dict_has ?d ''__lazy_json__''"
      by (auto simp: dict_get_def dict_has_def split: option.splits)
    moreover obtain w2 where "LazyJson E w1 f = (w2, Inr (new_handle f))"
      using LazyJson_ok [OF lib] by blast
    ultimately show ?thesis
      using that by (simp add: object_hook_def and_then_def)
  qed
  have 2: "object_hook E w1 ?d =
      (w1, case dict_get ?d ''elements'' of Inl e \<Rightarrow> Inl KeyError | Inr elements \<Rightarrow> py_set elements)"
    if "''__lazy_json__'' \<notin> fst ` set kjs" "''__set__'' \<in> fst ` set kjs"
    using that keys
    by (auto simp: object_hook_def dict_has_of_pairs dict_get_def split: option.splits)
  have 3: "snd (object_hook E w1 ?d) \<noteq> Inr (PDict kvs)"
    if "''__lazy_json__'' \<in> fst ` set kjs \<or> ''__set__'' \<in> fst ` set kjs"
    using that keys object_hook_not_dict [of ?d E w1 kvs] by (simp add: dict_has_of_pairs)
  show ?thesis
    using 1 2 3 dec py_set_scalars by simp
qed
theorem decode_marker_dispatch_witness:
  "(\<exists>w2. decode (env_sample [''file'']) world_empty
            (JObj [(''__lazy_json__'', JStr ''pr_json/numpy.json''), (''other'', JInt 1)])
          = (w2, Inr (PLazy ''pr_json/numpy.json'')))
   \<and> decode (env_sample [''file'']) world_empty
         (JObj [(''__set__'', JBool False), (''elements'', JArr [JInt 2, JInt 1])])
       = (world_empty, Inr (PSet [AInt 2, AInt 1]))
   \<and> decode (env_sample [''file'']) world_empty (JObj [(''__set__'', JNull)])
       = (world_empty, Inl KeyError)
   \<and> snd (decode (env_sample [''file'']) world_empty (JObj [(''__set__'', JNull)]))
       \<noteq> Inr (PDict [(''__set__'', PAtom ANone)])"
proof -
  let ?E = "env_sample [''file'']"
  have m1: "decode_items ?E world_empty [(''__lazy_json__'', JStr ''pr_json/numpy.json''), (''other'', JInt 1)]
      = (world_empty, Inr [(''__lazy_json__'', PAtom (AStr ''pr_json/numpy.json'')), (''other'', PAtom (AInt 1))])"
    by (simp add: and_then_def)
  have m2: "decode_items ?E world_empty [(''__set__'', JBool False), (''elements'', JArr [JInt 2, JInt 1])]
      = (world_empty, Inr [(''__set__'', PAtom (ABool False)),
           (''elements'', PList (map PAtom [AInt 2, AInt 1]))])"
    by (simp add: and_then_def)
  have m3: "decode_items ?E world_empty [(''__set__'', JNull)]
      = (world_empty, Inr [(''__set__'', PAtom ANone)])"
    by (simp add: and_then_def)
  note lib = hashlib_ok_sample [of "[''file'']"]
  show ?thesis
    using decode_marker_dispatch [OF lib m1, of "''pr_json/numpy.json''" "[]" "[]"]
      decode_marker_dispatch [OF lib m2, of "[]" "[AInt 2, AInt 1]" "[]"]
      decode_marker_dispatch [OF lib m3, of "[]" "[]" "[(''__set__'', PAtom ANone)]"]
    by (simp add: dict_of_pairs_def dict_set_def dict_get_def set_add_def py_eq_def atom_norm_def)
qed

text \<open>
  The claim as stated fails in three places. An object with both marker keys contains
  \<^verbatim>\<open>__set__\<close> and decodes to a handle, not to the set of its elements; an object whose
  \<^verbatim>\<open>__lazy_json__\<close> is no string raises \<^verbatim>\<open>TypeError\<close> in the constructor; and an object whose
  \<^verbatim>\<open>elements\<close> hold an array raises \<^verbatim>\<open>TypeError\<close>, a list being unhashable.
\<close>

theorem decode_marker_counterexample:
  "snd (decode (env_sample [''mongodb'']) world_empty
          (JObj [(''__lazy_json__'', JStr ''x.json''), (''__set__'', JBool True), (''elements'', JArr [])]))
     = Inr (PLazy ''x.json'')
   \<and> snd (decode (env_sample [''mongodb'']) world_empty (JObj [(''__lazy_json__'', JInt 5)]))
     = Inl TypeError
   \<and> snd (decode (env_sample [''mongodb'']) world_empty
          (JObj [(''__set__'', JBool True), (''elements'', JArr [JArr [JInt 1]])]))
     = Inl TypeError"
  by (simp add: backend_defs lazy_defs codec_defs path_defs sample_defs)

subsection \<open>The lazy document\<close>

lemma load_loaded: "data self \<noteq> PAtom ANone \<Longrightarrow> load E (w, self) = ((w, self), Inr ())"
  by (simp add: load_def)

lemma hset_file_ok:
  assumes "hashlib_ok E"
  shows "\<exists>w'. hset E w FileBackend name key v = (w', Inr ())
           \<and> trace w' = trace w @ [HSet ''file'' name key v]
           \<and> cf_graph w' = cf_graph w"
proof -
  from file_path_ok [OF assms] obtain p where "file_path E name key = Inr p" by blast
  then show ?thesis
    by (simp add: hset_def file_hset_def backend_name_of_def Let_def)
qed

lemma hset_mongo_ok:
  assumes "mongo_name_ok name" "json_read E v \<noteq> None"
  shows "\<exists>w'. hset E w MongoDBBackend name key v = (w', Inr ())
           \<and> trace w' = trace w @ [HSet ''mongodb'' name key v]
           \<and> files w' = files w"
proof -
  from assms(2) obtain d where "mongo_doc_of E v = Inr d"
    by (auto simp: mongo_doc_of_def json_loads_def)
  with assms(1) show ?thesis
    by (simp add: hset_def mongo_hset_def backend_name_of_def Let_def)
qed

lemma sync_to_backends_trace:
  assumes "list_all (\<lambda>b. b = ''file'' \<or>
                (b = ''mongodb'' \<and> mongo_name_ok name \<and> json_read E s \<noteq> None)) names"
  shows "\<exists>w'. sync_to_backends E w names name key s = (w', Inr ())
           \<and> trace w' = trace w @ map (\<lambda>b. HSet b name key s) (filter (\<lambda>b. b \<noteq> ''file'') names)
           \<and> files w' = files w"
  using assms
proof (induction names arbitrary: w)
  case Nil
  then show ?case by simp
next
  case (Cons b names)
  show ?case
  proof (cases "b = ''file''")
    case True
    with Cons show ?thesis by simp
  next
    case False
    with Cons.prems have b: "b = ''mongodb''" and nm: "mongo_name_ok name"
      and js: "json_read E s \<noteq> None" and rest: "list_all (\<lambda>b. b = ''file'' \<or>
                (b = ''mongodb'' \<and> mongo_name_ok name \<and> json_read E s \<noteq> None)) names"
      by auto
    obtain w1 where w1: "hset E w MongoDBBackend name key s = (w1, Inr ())"
      "trace w1 = trace w @ [HSet ''mongodb'' name key s]" "files w1 = files w"
      using hset_mongo_ok [OF nm js] by blast
    obtain w2 where w2: "sync_to_backends E w1 names name key s = (w2, Inr ())"
      "trace w2 = trace w1 @ map (\<lambda>b. HSet b name key s) (filter (\<lambda>b. b \<noteq> ''file'') names)"
      "files w2 = files w1"
      using Cons.IH [OF rest] by blast
    show ?thesis
      using False b w1 w2
      by (simp add: and_then_def pure_def LAZY_JSON_BACKENDS_def)
  qed
qed

lemma dump_write_clean:
  assumes "data self \<noteq> PAtom ANone" "dumps E (data self) = Inr s"
    and "data_hash_at_load self = Some (sha256_hex E s)"
  shows "dump_write E (w, self) False = ((w, self), Inr ())"
  using assms by (simp add: dump_write_def load_def and_then_def pure_def Let_def)

lemma dump_write_dirty:
  assumes v: "data self \<noteq> PAtom ANone" and s: "dumps E (data self) = Inr s"
    and dirty: "data_hash_at_load self \<noteq> Some (sha256_hex E s) \<or> force"
    and ok: "writable E (backend_names E self) (hashmap self) s"
  shows "\<exists>w'. dump_write E (w, self) force
               = ((w', self\<lparr>data_hash_at_load := Some (sha256_hex E s)\<rparr>), Inr ())
           \<and> trace w' = trace w
               @ HSet ''file'' (hashmap self) (node self) s
               # map (\<lambda>b. HSet b (hashmap self) (node self) s)
                   (filter (\<lambda>b. b \<noteq> ''file'') (backend_names E self))"
proof -
  let ?self = "self\<lparr>data_hash_at_load := Some (sha256_hex E s)\<rparr>"
  from ok have lib: "hashlib_ok E" by (simp add: writable_def)
  obtain w1 where w1: "hset E w FileBackend (hashmap self) (node self) s = (w1, Inr ())"
      "trace w1 = trace w @ [HSet ''file'' (hashmap self) (node self) s]"
    using hset_file_ok [OF lib] by blast
  obtain w2 where w2:
      "sync_to_backends E w1 (backend_names E self) (hashmap self) (node self) s = (w2, Inr ())"
      "trace w2 = trace w1 @ map (\<lambda>b. HSet b (hashmap self) (node self) s)
                   (filter (\<lambda>b. b \<noteq> ''file'') (backend_names E self))"
    using sync_to_backends_trace [of "hashmap self" E s "backend_names E self" w1 "node self"] ok
    by (auto simp: writable_def)
  have bn: "backend_names E ?self = backend_names E self"
    by (simp add: backend_names_def)
  have "dump_write E (w, self) force = ((w2, ?self), Inr ())"
    using v s dirty w1(1) w2(1) bn
    by (auto simp: dump_write_def load_def and_then_def pure_def on_world_def Let_def)
  with w1(2) w2(2) show ?thesis by simp
qed


lemma dumps_sample:
  "dumps (env_sample bs) (PDict [(''a'', PAtom (AInt 1))]) = Inr text_a1"
  "dumps (env_sample bs) (PDict [(''a'', PAtom (AInt 2))]) = Inr text_a2"
  by (simp_all add: codec_defs env_sample_def json_write_sample_def)

lemma sha256_sample_distinct: "sha256_sample text_a1 \<noteq> sha256_sample text_a2"
  by (simp add: sample_defs)

lemma doc_sample_simps:
  "data doc_sample = PDict [(''a'', PAtom (AInt 1))]"
  "data_hash_at_load doc_sample = Some (sha256_sample text_a1)"
  "hashmap doc_sample = ''pr_json''" "node doc_sample = ''numpy''"
  "override_backends doc_sample = None" "in_context doc_sample = False"
  by (simp_all add: doc_sample_def new_handle_def os_path_split_def rstrip_sep_def strip_json_def
      Let_def)

lemma doc_edited_sample_simps:
  "data doc_edited_sample = PDict [(''a'', PAtom (AInt 2))]"
  "data_hash_at_load doc_edited_sample = Some (sha256_sample text_a1)"
  "hashmap doc_edited_sample = ''pr_json''" "node doc_edited_sample = ''numpy''"
  "override_backends doc_edited_sample = None" "in_context doc_edited_sample = False"
  by (simp_all add: doc_edited_sample_def doc_sample_simps)

lemma doc_sample_loaded:
  "data doc_sample \<noteq> PAtom ANone" "data doc_edited_sample \<noteq> PAtom ANone"
  by (simp_all add: doc_sample_simps doc_edited_sample_simps)

lemma doc_sample_dumps:
  "dumps (env_sample bs) (data doc_sample) = Inr text_a1"
  "dumps (env_sample bs) (data doc_edited_sample) = Inr text_a2"
  by (simp_all add: doc_sample_simps doc_edited_sample_simps dumps_sample)

lemma writable_sample:
  "writable (env_sample [''file'', ''mongodb'']) [''file'', ''mongodb''] ''pr_json'' text_a2"
  by (simp add: writable_def hashlib_ok_sample mongo_name_ok_def CF_TICK_GRAPH_DATA_HASHMAPS_def)
    (simp add: sample_defs)

lemma edited_sample_dirty:
  "data_hash_at_load doc_edited_sample
     \<noteq> Some (sha256_hex (env_sample [''file'', ''mongodb'']) text_a2)"
  using sha256_sample_distinct by (simp add: doc_edited_sample_simps env_sample_def)

text \<open>
  \<^bold>\<open>C2\<close> (as amended). Let a document be loaded (\<^verbatim>\<open>_data\<close> is not \<^verbatim>\<open>None\<close>), and let its
  value serialize to \<open>s\<close>.
  If the digest of \<open>s\<close> is the baseline and nothing forces the write, \<^verbatim>\<open>_dump\<close> writes
  nothing: the world, its trace included, is the same after the edit scope is left. If the
  digest differs or the write is forced, and the writes raise nothing, the trace grows by
  exactly one \<^verbatim>\<open>hset\<close> on the file cache followed by one \<^verbatim>\<open>hset\<close> for each named backend
  other than \<^verbatim>\<open>file\<close>, and the baseline becomes the new digest. An explicit flush of the
  loaded document always writes so and keeps value and baseline; leaving the edit scope
  writes so when the digest differs and then purges: value and baseline are \<^verbatim>\<open>None\<close>.
\<close>

theorem dump_dirty_tracking:
  assumes v: "data self \<noteq> PAtom ANone" and s: "dumps E (data self) = Inr s"
  shows
    "(data_hash_at_load self = Some (sha256_hex E s) \<longrightarrow>
        dump_write E (w, self) False = ((w, self), Inr ())
        \<and> exit E (w, self) = ((w, purged self), Inr ()))
     \<and> ((data_hash_at_load self \<noteq> Some (sha256_hex E s) \<or> force)
          \<and> writable E (backend_names E self) (hashmap self) s \<longrightarrow>
        (\<exists>w'. dump_write E (w, self) force
                = ((w', self\<lparr>data_hash_at_load := Some (sha256_hex E s)\<rparr>), Inr ())
              \<and> trace w' = trace w @ dump_calls E self s))
     \<and> (writable E (backend_names E self) (hashmap self) s \<longrightarrow>
        (\<exists>w'. flush_to_backends E (w, self)
                = ((w', self\<lparr>data_hash_at_load := Some (sha256_hex E s)\<rparr>), Inr ())
              \<and> trace w' = trace w @ dump_calls E self s))
     \<and> (data_hash_at_load self \<noteq> Some (sha256_hex E s)
          \<and> writable E (backend_names E self) (hashmap self) s \<longrightarrow>
        (\<exists>w'. exit E (w, self) = ((w', purged self), Inr ())
              \<and> trace w' = trace w @ dump_calls E self s))"
proof -
  have 1: "dump_write E (w, self) False = ((w, self), Inr ())
      \<and> exit E (w, self) = ((w, purged self), Inr ())"
    if "data_hash_at_load self = Some (sha256_hex E s)"
    using dump_write_clean [OF v s that, of w]
    by (simp add: exit_def dump_def and_then_def purged_def)
  have 2: "\<exists>w'. dump_write E (w, self) force
                = ((w', self\<lparr>data_hash_at_load := Some (sha256_hex E s)\<rparr>), Inr ())
              \<and> trace w' = trace w @ dump_calls E self s"
    if "data_hash_at_load self \<noteq> Some (sha256_hex E s) \<or> force"
      "writable E (backend_names E self) (hashmap self) s" for force
    using dump_write_dirty [OF v s that, of w] by (simp add: dump_calls_def)
  have 3: "\<exists>w'. flush_to_backends E (w, self)
                = ((w', self\<lparr>data_hash_at_load := Some (sha256_hex E s)\<rparr>), Inr ())
              \<and> trace w' = trace w @ dump_calls E self s"
    if "writable E (backend_names E self) (hashmap self) s"
  proof -
    from 2 [of True] that obtain w' where
      "dump_write E (w, self) True
         = ((w', self\<lparr>data_hash_at_load := Some (sha256_hex E s)\<rparr>), Inr ())"
      "trace w' = trace w @ dump_calls E self s"
      by blast
    then show ?thesis
      using v by (simp add: flush_to_backends_def load_loaded dump_def and_then_def)
  qed
  have 4: "\<exists>w'. exit E (w, self) = ((w', purged self), Inr ())
              \<and> trace w' = trace w @ dump_calls E self s"
    if "data_hash_at_load self \<noteq> Some (sha256_hex E s)"
      "writable E (backend_names E self) (hashmap self) s"
  proof -
    from 2 [of False] that obtain w' where
      "dump_write E (w, self) False
         = ((w', self\<lparr>data_hash_at_load := Some (sha256_hex E s)\<rparr>), Inr ())"
      "trace w' = trace w @ dump_calls E self s"
      by blast
    then show ?thesis
      by (simp add: exit_def dump_def and_then_def purged_def)
  qed
  show ?thesis
    using 1 2 [of force] 3 4 by blast
qed

theorem dump_dirty_tracking_witness:
  "exit (env_sample [''file'', ''mongodb'']) (world_empty, doc_sample)
     = ((world_empty, purged doc_sample), Inr ())
   \<and> (\<exists>w'. flush_to_backends (env_sample [''file'', ''mongodb'']) (world_empty, doc_edited_sample)
             = ((w', doc_edited_sample\<lparr>data_hash_at_load := Some (sha256_sample text_a2)\<rparr>),
                Inr ())
           \<and> trace w' = [HSet ''file'' ''pr_json'' ''numpy'' text_a2,
                           HSet ''mongodb'' ''pr_json'' ''numpy'' text_a2])
   \<and> (\<exists>w'. exit (env_sample [''file'', ''mongodb'']) (world_empty, doc_edited_sample)
             = ((w', purged doc_edited_sample), Inr ())
           \<and> trace w' = [HSet ''file'' ''pr_json'' ''numpy'' text_a2,
                           HSet ''mongodb'' ''pr_json'' ''numpy'' text_a2])"
proof -
  let ?E = "env_sample [''file'', ''mongodb'']"
  have bn: "backend_names ?E doc_edited_sample = [''file'', ''mongodb'']"
    by (simp add: backend_names_def doc_edited_sample_simps env_sample_def)
  have h1: "data_hash_at_load doc_sample = Some (sha256_hex ?E text_a1)"
    by (simp add: doc_sample_simps env_sample_def)
  have e: "sha256_hex ?E text_a2 = sha256_sample text_a2" "trace world_empty = []"
    by (simp_all add: env_sample_def world_empty_def)
  show ?thesis
    using dump_dirty_tracking [OF doc_sample_loaded(1)
        doc_sample_dumps(1) [of "[''file'', ''mongodb'']"], where w = world_empty and force = False]
      dump_dirty_tracking [OF doc_sample_loaded(2)
        doc_sample_dumps(2) [of "[''file'', ''mongodb'']"], where w = world_empty and force = False]
      h1 edited_sample_dirty writable_sample bn e
    by (simp add: dump_calls_def doc_edited_sample_simps)
qed

text \<open>
  The claim as stated has the baseline equal to the new digest after the edit scope is
  left. It is not: \<^verbatim>\<open>__exit__\<close> dumps with \<^verbatim>\<open>purge=True\<close>, and the purge resets the baseline
  that the write has just set.
\<close>

theorem exit_drops_baseline_counterexample:
  "snd (exit (env_sample [''file'', ''mongodb'']) (world_empty, doc_edited_sample)) = Inr ()
   \<and> trace (fst (fst (exit (env_sample [''file'', ''mongodb'']) (world_empty, doc_edited_sample))))
       = [HSet ''file'' ''pr_json'' ''numpy'' text_a2, HSet ''mongodb'' ''pr_json'' ''numpy'' text_a2]
   \<and> data_hash_at_load
         (snd (fst (exit (env_sample [''file'', ''mongodb'']) (world_empty, doc_edited_sample))))
       = None
   \<and> data_hash_at_load
         (snd (fst (exit (env_sample [''file'', ''mongodb'']) (world_empty, doc_edited_sample))))
       \<noteq> Some (sha256_sample text_a2)"
proof -
  let ?E = "env_sample [''file'', ''mongodb'']"
  have bn: "backend_names ?E doc_edited_sample = [''file'', ''mongodb'']"
    by (simp add: backend_names_def doc_edited_sample_simps env_sample_def)
  have "\<exists>w'. dump_write ?E (world_empty, doc_edited_sample) False
           = ((w', doc_edited_sample\<lparr>data_hash_at_load := Some (sha256_hex ?E text_a2)\<rparr>), Inr ())
         \<and> trace w' = trace world_empty
               @ HSet ''file'' (hashmap doc_edited_sample) (node doc_edited_sample) text_a2
               # map (\<lambda>b. HSet b (hashmap doc_edited_sample) (node doc_edited_sample) text_a2)
                   (filter (\<lambda>b. b \<noteq> ''file'') (backend_names ?E doc_edited_sample))"
    by (rule dump_write_dirty [OF doc_sample_loaded(2) doc_sample_dumps(2)
          disjI1 [OF edited_sample_dirty]])
      (simp add: bn doc_edited_sample_simps writable_sample)
  then obtain w' where
    "dump_write ?E (world_empty, doc_edited_sample) False
       = ((w', doc_edited_sample\<lparr>data_hash_at_load := Some (sha256_hex ?E text_a2)\<rparr>), Inr ())"
    "trace w' = [HSet ''file'' ''pr_json'' ''numpy'' text_a2,
                 HSet ''mongodb'' ''pr_json'' ''numpy'' text_a2]"
    by (auto simp: bn doc_edited_sample_simps world_empty_def)
  then show ?thesis
    by (simp add: exit_def dump_def and_then_def)
qed

text \<open>
  \<^bold>\<open>C8\<close> (as amended). The three mutating methods are guarded by the flag
  \<^verbatim>\<open>_in_context\<close> of the handle. While the flag is unset, item assignment, item deletion
  and \<^verbatim>\<open>clear\<close> raise \<^verbatim>\<open>AssertionError\<close> and leave the document and the world as they were;
  the assertion comes before the load. The flag is unset on a new handle, set by
  \<^verbatim>\<open>__enter__\<close>, and unset again by every \<^verbatim>\<open>__exit__\<close> that returns, so that after it the
  three methods fail. After \<^verbatim>\<open>__enter__\<close>, on a document that loads to a dictionary,
  assignment stores the item, \<^verbatim>\<open>clear\<close> empties the dictionary, and the deletion of a key
  that the dictionary holds removes it.
\<close>

theorem mutation_needs_edit_scope:
  "(\<not> in_context self \<longrightarrow>
       setitem E (w, self) key v = ((w, self), Inl AssertionError)
     \<and> delitem E (w, self) key = ((w, self), Inl AssertionError)
     \<and> clear E (w, self) = ((w, self), Inl AssertionError))
   \<and> \<not> in_context (new_handle fname)
   \<and> in_context (snd (enter (w, self)))
   \<and> (exit E (w, self) = ((w_left, self_left), Inr ()) \<longrightarrow>
       \<not> in_context self_left
     \<and> setitem E (w_left, self_left) key v = ((w_left, self_left), Inl AssertionError)
     \<and> delitem E (w_left, self_left) key = ((w_left, self_left), Inl AssertionError)
     \<and> clear E (w_left, self_left) = ((w_left, self_left), Inl AssertionError))
   \<and> (load E (enter (w, self)) = ((w', self'), Inr ()) \<and> data self' = PDict d \<longrightarrow>
       setitem E (enter (w, self)) key v
         = ((w', self'\<lparr>data := PDict (dict_set d key v)\<rparr>), Inr ())
     \<and> clear E (enter (w, self)) = ((w', self'\<lparr>data := PDict []\<rparr>), Inr ())
     \<and> (dict_has d key \<longrightarrow>
          delitem E (enter (w, self)) key
            = ((w', self'\<lparr>data := PDict (AList.delete key d)\<rparr>), Inr ())))"
proof -
  have guard: "setitem E (w, self) key v = ((w, self), Inl AssertionError)
     \<and> delitem E (w, self) key = ((w, self), Inl AssertionError)
     \<and> clear E (w, self) = ((w, self), Inl AssertionError)"
    if "\<not> in_context self" for w self
    using that by (simp add: setitem_def delitem_def clear_def)
  have left: "\<not> in_context self_left" if "exit E (w, self) = ((w_left, self_left), Inr ())"
    using that
    by (auto simp: exit_def and_then_def split: prod.splits sum.splits)
  have inside: "setitem E (enter (w, self)) key v
         = ((w', self'\<lparr>data := PDict (dict_set d key v)\<rparr>), Inr ())
     \<and> clear E (enter (w, self)) = ((w', self'\<lparr>data := PDict []\<rparr>), Inr ())
     \<and> (dict_has d key \<longrightarrow>
          delitem E (enter (w, self)) key
            = ((w', self'\<lparr>data := PDict (AList.delete key d)\<rparr>), Inr ()))"
    if "load E (enter (w, self)) = ((w', self'), Inr ())" "data self' = PDict d"
    using that
    by (simp add: setitem_def delitem_def clear_def update_data_def enter_def and_then_def
        py_setitem_def py_delitem_def py_clear_def)
  have new: "\<not> in_context (new_handle fname)"
    by (simp add: new_handle_def Let_def)
  have entered: "in_context (snd (enter (w, self)))"
    by (simp add: enter_def)
  show ?thesis
    using guard [of self w] guard [of self_left w_left] left inside new entered by blast
qed

theorem mutation_needs_edit_scope_witness:
  "setitem (env_sample [''file'']) (world_empty, doc_sample) ''b'' (PAtom (AInt 2))
     = ((world_empty, doc_sample), Inl AssertionError)
   \<and> delitem (env_sample [''file'']) (world_empty, doc_sample) ''a''
     = ((world_empty, doc_sample), Inl AssertionError)
   \<and> clear (env_sample [''file'']) (world_empty, doc_sample)
     = ((world_empty, doc_sample), Inl AssertionError)
   \<and> setitem (env_sample [''file'']) (enter (world_empty, doc_sample)) ''b'' (PAtom (AInt 2))
     = ((world_empty, doc_sample\<lparr>in_context := True,
            data := PDict [(''a'', PAtom (AInt 1)), (''b'', PAtom (AInt 2))]\<rparr>), Inr ())
   \<and> delitem (env_sample [''file'']) (enter (world_empty, doc_sample)) ''a''
     = ((world_empty, doc_sample\<lparr>in_context := True, data := PDict []\<rparr>), Inr ())
   \<and> clear (env_sample [''file'']) (enter (world_empty, doc_sample))
     = ((world_empty, doc_sample\<lparr>in_context := True, data := PDict []\<rparr>), Inr ())
   \<and> exit (env_sample [''file'']) (world_empty, doc_sample)
     = ((world_empty, purged doc_sample), Inr ())
   \<and> setitem (env_sample [''file'']) (world_empty, purged doc_sample) ''b'' (PAtom (AInt 2))
     = ((world_empty, purged doc_sample), Inl AssertionError)"
proof -
  let ?E = "env_sample [''file'']"
  have nc: "\<not> in_context doc_sample"
    by (simp add: doc_sample_simps)
  have ld: "load ?E (enter (world_empty, doc_sample))
      = ((world_empty, doc_sample\<lparr>in_context := True\<rparr>), Inr ())"
    by (simp add: enter_def load_def doc_sample_simps)
  have d: "data (doc_sample\<lparr>in_context := True\<rparr>) = PDict [(''a'', PAtom (AInt 1))]"
    by (simp add: doc_sample_simps)
  have h: "data_hash_at_load doc_sample = Some (sha256_hex ?E text_a1)"
    by (simp add: doc_sample_simps env_sample_def)
  have ex: "exit ?E (world_empty, doc_sample) = ((world_empty, purged doc_sample), Inr ())"
    using dump_write_clean [OF doc_sample_loaded(1) doc_sample_dumps(1) h, of world_empty]
    by (simp add: exit_def dump_def and_then_def purged_def)
  show ?thesis
    using mutation_needs_edit_scope [where self = doc_sample and E = ?E
        and w = world_empty and key = "''b''" and v = "PAtom (AInt 2)" and w' = world_empty
        and self' = "doc_sample\<lparr>in_context := True\<rparr>" and d = "[(''a'', PAtom (AInt 1))]"
        and w_left = world_empty and self_left = "purged doc_sample"]
      mutation_needs_edit_scope [where self = doc_sample and E = ?E
        and w = world_empty and key = "''a''" and v = "PAtom (AInt 2)" and w' = world_empty
        and self' = "doc_sample\<lparr>in_context := True\<rparr>" and d = "[(''a'', PAtom (AInt 1))]"
        and w_left = world_empty and self_left = "purged doc_sample"]
      nc ld d ex
    by (simp add: dict_set_def dict_has_def)
qed

text \<open>
  The claim as stated has the guard follow the edit scope. It follows the flag, and the
  flag is not the scope. Where a \<^verbatim>\<open>with\<close> on a handle holds a second \<^verbatim>\<open>with\<close> on the same
  handle, the inner \<^verbatim>\<open>__exit__\<close> unsets the flag, and an assignment in the rest of the outer
  scope raises \<^verbatim>\<open>AssertionError\<close>. Where \<^verbatim>\<open>_dump\<close> raises in \<^verbatim>\<open>__exit__\<close> (here a set of a
  number and a string, which \<^verbatim>\<open>sorted\<close> refuses), the flag stays set, and an assignment
  after the scope has been left succeeds.
\<close>

theorem edit_scope_flag_counterexample:
  "exit (env_sample [''file'']) (enter (enter (world_empty, doc_sample)))
     = ((world_empty, purged doc_sample), Inr ())
   \<and> setitem (env_sample [''file'']) (world_empty, purged doc_sample) ''b'' (PAtom (AInt 2))
     = ((world_empty, purged doc_sample), Inl AssertionError)
   \<and> exit (env_sample [''file''])
         (world_empty, doc_sample\<lparr>in_context := True,
            data := PDict [(''s'', PSet [AInt 1, AStr ''x''])]\<rparr>)
     = ((world_empty, doc_sample\<lparr>in_context := True,
            data := PDict [(''s'', PSet [AInt 1, AStr ''x''])]\<rparr>), Inl TypeError)
   \<and> setitem (env_sample [''file''])
         (world_empty, doc_sample\<lparr>in_context := True,
            data := PDict [(''s'', PSet [AInt 1, AStr ''x''])]\<rparr>) ''b'' (PAtom (AInt 2))
     = ((world_empty, doc_sample\<lparr>in_context := True,
            data := PDict [(''s'', PSet [AInt 1, AStr ''x'']), (''b'', PAtom (AInt 2))]\<rparr>),
        Inr ())"
proof -
  let ?E = "env_sample [''file'']"
  let ?bad = "doc_sample\<lparr>in_context := True,
            data := PDict [(''s'', PSet [AInt 1, AStr ''x''])]\<rparr>"
  have e2: "enter (enter (world_empty, doc_sample)) = (world_empty, doc_sample\<lparr>in_context := True\<rparr>)"
    by (simp add: enter_def)
  have h: "data_hash_at_load (doc_sample\<lparr>in_context := True\<rparr>) = Some (sha256_hex ?E text_a1)"
    by (simp add: doc_sample_simps env_sample_def)
  have l: "data (doc_sample\<lparr>in_context := True\<rparr>) \<noteq> PAtom ANone"
    by (simp add: doc_sample_simps)
  have s: "dumps ?E (data (doc_sample\<lparr>in_context := True\<rparr>)) = Inr text_a1"
    by (simp add: doc_sample_simps dumps_sample)
  have 1: "exit ?E (enter (enter (world_empty, doc_sample)))
     = ((world_empty, purged doc_sample), Inr ())"
    using dump_write_clean [OF l s h, of world_empty]
    by (simp add: e2 exit_def dump_def and_then_def purged_def)
  have 2: "setitem ?E (world_empty, purged doc_sample) ''b'' (PAtom (AInt 2))
     = ((world_empty, purged doc_sample), Inl AssertionError)"
    by (simp add: setitem_def purged_def)
  have bad: "dumps ?E (data ?bad) = Inl TypeError"
    by (simp add: codec_defs py_sorted_def atom_is_num_def atom_is_str_def)
  have 3: "exit ?E (world_empty, ?bad) = ((world_empty, ?bad), Inl TypeError)"
    using bad by (simp add: exit_def dump_def dump_write_def load_def and_then_def pure_def)
  have 4: "setitem ?E (world_empty, ?bad) ''b'' (PAtom (AInt 2))
     = ((world_empty, ?bad\<lparr>data := PDict [(''s'', PSet [AInt 1, AStr ''x'']),
           (''b'', PAtom (AInt 2))]\<rparr>), Inr ())"
    by (simp add: setitem_def update_data_def load_def and_then_def py_setitem_def dict_set_def)
  show ?thesis
    using 1 2 3 4 by simp
qed

subsection \<open>The transaction scope\<close>

lemmas txn_defs = txn_init_def start_session_def leave_session_def

text \<open>Every exit of a scope, normal or by an exception, leaves the session handle cleared.\<close>

lemma scope_clears_session: "session (fst (exec t (Scope body))) = None"
  by (simp split: prod.splits)

text \<open>A scope entered while the handle is set starts no session of its own.\<close>

lemma nested_scope_reuses_handle:
  "session t = Some s \<Longrightarrow>
   exec t (Scope [Work]) = (t\<lparr>events := events t @ [Used (Some s)], session := None\<rparr>, False)"
  by simp

text \<open>
  \<^bold>\<open>C4\<close>. The claim has at most one session open at a time, a scope entered while a
  session is open reusing it. The code breaks this where an outer scope holds two inner
  scopes one after the other: the \<^verbatim>\<open>finally\<close> of the first inner scope clears the handle
  of the outer session, which is still open; the operation that follows runs with no
  session, and the second inner scope finds the handle empty and starts session 1 and a
  transaction of its own inside session 0. Two sessions are open at once. Only the last
  part of the claim holds: the handle is cleared when the outermost scope is left.
\<close>

theorem nested_scopes_open_two_sessions:
  "events (fst (exec txn_init (Scope [Scope [Work], Work, Scope [Work]])))
     = [Started 0, Used (Some 0), Used None, Started 1, Used (Some 1), Committed 1, Ended 1,
        Committed 0, Ended 0]
   \<and> peak_open 0 (events (fst (exec txn_init (Scope [Scope [Work], Work, Scope [Work]])))) = 2
   \<and> session (fst (exec txn_init (Scope [Scope [Work], Work, Scope [Work]]))) = None"
  by (simp add: txn_defs)

subsection \<open>The sync engine: the fetch loop\<close>

lemma mset_remove_nth: "i < length s \<Longrightarrow> add_mset (s ! i) (mset (take i s @ drop (Suc i) s)) = mset s"
  by (metis append_take_drop_id Cons_nth_drop_Suc mset.simps(2) mset_append union_mset_add_mset_right)

lemma pop_many_ok:
  "k \<le> length s \<Longrightarrow>
   \<exists>xs r. pop_many pick k s = Inr (xs, r) \<and> length xs = k \<and> length r = length s - k
          \<and> mset xs + mset r = mset s"
proof (induction k arbitrary: s)
  case 0
  then show ?case by simp
next
  case (Suc k)
  then have ne: "s \<noteq> []" by auto
  let ?i = "pick s mod length s"
  let ?s' = "take ?i s @ drop (Suc ?i) s"
  have i: "?i < length s" using ne by simp
  then have len: "length ?s' = length s - 1" by simp
  with Suc.prems have "k \<le> length ?s'" by simp
  from Suc.IH [OF this] obtain xs r where
    p: "pop_many pick k ?s' = Inr (xs, r)" and l: "length xs = k" "length r = length ?s' - k"
    and m: "mset xs + mset r = mset ?s'"
    by blast
  have "pop_many pick (Suc k) s = Inr (s ! ?i # xs, r)"
    using ne p by (simp add: Let_def)
  moreover have "mset (s ! ?i # xs) + mset r = mset s"
    using m mset_remove_nth [OF i] by simp
  ultimately show ?case
    using l len by auto
qed

lemma sequence_length: "sequence rs = Inr xs \<Longrightarrow> length xs = length rs"
  by (induction rs arbitrary: xs) (auto split: sum.splits)

lemma hmget_trace:
  "hmget E w b name ks = (w1, r) \<Longrightarrow> trace w1 = trace w @ [HMGet (backend_name_of b) name ks]"
  by (auto simp: hmget_def Let_def)

lemma sequence_items_keys: "sequence_items krs = Inr kxs \<Longrightarrow> map fst kxs = map fst krs"
proof (induction krs arbitrary: kxs)
  case Nil
  then show ?case by (simp add: sequence_items_def)
next
  case (Cons kr krs)
  then show ?case
    by (cases kr; cases "snd kr") (auto simp: sequence_items_def split: sum.splits)
qed

lemma hmget_length:
  assumes "hmget E w b name ks = (w1, Inr texts)"
  shows "length texts = length ks"
proof (cases b)
  case FileBackend
  with assms show ?thesis
    by (auto simp: hmget_def file_hmget_def Let_def dest: sequence_length)
next
  case MongoDBBackend
  with assms show ?thesis
    by (auto simp: hmget_def mongo_hmget_def Let_def split: if_splits sum.splits
        dest: sequence_length)
qed

lemma hmset_trace:
  "hmset E w b name m = (w1, r) \<Longrightarrow> trace w1 = trace w @ [HMSet (backend_name_of b) name m]"
  by (cases b) (auto simp: hmset_def Let_def split: prod.splits sum.splits)

lemma backend_name_of_lookup: "LAZY_JSON_BACKENDS n = Inr b \<Longrightarrow> backend_name_of b = n"
  by (auto simp: LAZY_JSON_BACKENDS_def backend_name_of_def split: if_splits)



lemma update_absent: "k \<notin> fst ` set al \<Longrightarrow> AList.update k v al = al @ [(k, v)]"
  by (induction al) auto

lemma foldl_dict_set_distinct:
  "distinct (map fst (d0 @ kvs)) \<Longrightarrow> foldl (\<lambda>d (k, v). dict_set d k v) d0 kvs = d0 @ kvs"
proof (induction kvs arbitrary: d0)
  case Nil
  then show ?case by simp
next
  case (Cons kv kvs)
  obtain k v where kv: "kv = (k, v)" by (cases kv)
  from Cons.prems kv have "k \<notin> fst ` set d0" by auto
  then have "dict_set d0 k v = d0 @ [(k, v)]" by (simp add: dict_set_def update_absent)
  moreover from Cons.prems kv have "distinct (map fst ((d0 @ [(k, v)]) @ kvs))" by simp
  ultimately show ?case using Cons.IH [of "d0 @ [(k, v)]"] kv by simp
qed

lemma dict_of_pairs_distinct: "distinct (map fst kvs) \<Longrightarrow> dict_of_pairs kvs = kvs"
  using foldl_dict_set_distinct [of "[]" kvs] by (simp add: dict_of_pairs_def)

lemma batch_sizes_step:
  assumes "0 < n" "0 < m"
  shows "min m n # batch_sizes (m - min m n) n = batch_sizes m n"
proof (cases "n \<le> m")
  case True
  then have d: "m div n = Suc ((m - n) div n)" and r: "(m - n) mod n = m mod n"
    using assms by (simp_all add: le_div_geq le_mod_geq)
  from True show ?thesis
    by (simp add: batch_sizes_def d r min_def)
next
  case False
  then show ?thesis using assms by (simp add: batch_sizes_def min_def)
qed

lemma batch_sizes_length:
  assumes n: "0 < n"
  shows "length (batch_sizes m n) = (m + n - 1) div n"
proof -
  define r where "r = m mod n"
  define q where "q = m div n"
  have m: "m = r + q * n" by (simp add: q_def r_def)
  have r: "r < n" using n by (simp add: r_def)
  have "(m + n - 1) div n = q + (if r = 0 then 0 else 1)"
  proof (cases "r = 0")
    case True
    have "m + n - 1 = (n - 1) + q * n" using m True n by simp
    then have "(m + n - 1) div n = ((n - 1) + q * n) div n" by (simp only:)
    also have "\<dots> = q + (n - 1) div n" using n by (simp only: div_mult_self1)
    finally show ?thesis using True n by simp
  next
    case False
    have "m + n - 1 = (r - 1) + (q + 1) * n" using m False by simp
    then have "(m + n - 1) div n = ((r - 1) + (q + 1) * n) div n" by (simp only:)
    also have "\<dots> = (q + 1) + (r - 1) div n" using n by (simp only: div_mult_self1)
    finally show ?thesis using False r by simp
  qed
  then show ?thesis by (simp add: batch_sizes_def q_def r_def)
qed


lemma push_batch_calls:
  assumes "push_batch E w name ph bh batch names = (w2, Inr u)"
  shows "\<exists>seg. trace w2 = trace w @ seg
           \<and> map keys_of_call seg = pushes ph bh names (map fst batch)"
  using assms
proof (induction names arbitrary: w)
  case Nil
  then show ?case by (simp add: pushes_def)
next
  case (Cons n names)
  from Cons.prems obtain hashes where h: "dict_get bh n = Inr hashes"
    by (cases "dict_get bh n") auto
  then have mo: "map_of bh n = Some hashes"
    by (auto simp: dict_get_def split: option.splits)
  let ?b = "filter (\<lambda>(nd, _). stale hashes ph nd) batch"
  have keys: "map fst ?b = filter (stale hashes ph) (map fst batch)"
    by (induction batch) auto
  show ?case
  proof (cases "?b = []")
    case True
    with Cons.prems h have "push_batch E w name ph bh batch names = (w2, Inr u)"
      by simp
    from Cons.IH [OF this] obtain seg where
      "trace w2 = trace w @ seg" "map keys_of_call seg = pushes ph bh names (map fst batch)"
      by blast
    moreover have "filter (stale hashes ph) (map fst batch) = []"
      using True keys by simp
    ultimately show ?thesis
      using mo by (auto simp: pushes_def)
  next
    case False
    with Cons.prems h obtain backend w1 where
      b: "LAZY_JSON_BACKENDS n = Inr backend"
      and w1: "hmset E w backend name ?b = (w1, Inr ())"
      and rest: "push_batch E w1 name ph bh batch names = (w2, Inr u)"
      by (auto simp: Let_def split: sum.splits prod.splits)
    from Cons.IH [OF rest] obtain seg where
      seg: "trace w2 = trace w1 @ seg" "map keys_of_call seg = pushes ph bh names (map fst batch)"
      by blast
    have t1: "trace w1 = trace w @ [HMSet n name ?b]"
      using hmset_trace [OF w1] backend_name_of_lookup [OF b] by simp
    have ne: "filter (stale hashes ph) (map fst batch) \<noteq> []"
      using False keys by (metis map_is_Nil_conv)
    have "trace w2 = trace w @ (HMSet n name ?b # seg)"
      using seg(1) t1 by simp
    moreover have "map keys_of_call (HMSet n name ?b # seg)
        = pushes ph bh (n # names) (map fst batch)"
      using seg(2) mo ne keys by (simp add: pushes_def keys_of_call_def)
    ultimately show ?thesis by blast
  qed
qed

lemma fetch_loop_calls:
  assumes n: "0 < n"
    and "distinct todo"
    and "fetch_loop E pick name n pb ph bh todo w = Some (w', Inr ())"
  shows "\<exists>bs seg. trace w' = trace w @ seg
           \<and> map keys_of_call seg
               = concat (map (batch_calls (backend_name_of pb) ph bh (tl (BACKENDS E))) bs)
           \<and> mset (concat bs) = mset todo
           \<and> map length bs = batch_sizes (length todo) (nat n)"
  using assms(2,3)
proof (induction "length todo" arbitrary: todo w rule: less_induct)
  case less
  show ?case
  proof (cases "todo = []")
    case True
    with less.prems have "w' = w"
      by (simp add: fetch_loop.simps)
    with True show ?thesis
      by (intro exI [of _ "[]"]) (simp add: batch_sizes_def)
  next
    case False
    let ?k = "nat (min (int (length todo)) n)"
    have k: "?k = min (length todo) (nat n)" "0 < ?k" "?k \<le> length todo"
      using n False by auto
    from pop_many_ok [OF k(3), of pick] obtain xs r where
      pop: "pop_many pick ?k todo = Inr (xs, r)" and lx: "length xs = ?k"
      and lr: "length r = length todo - ?k" and ms: "mset xs + mset r = mset todo"
      by blast
    have "mset (xs @ r) = mset todo" using ms by simp
    then have "distinct (xs @ r)"
      using less.prems(1) by (metis mset_eq_imp_distinct_iff)
    then have dx: "distinct xs" and dr: "distinct r" by simp_all
    from less.prems(2) False pop obtain w1 texts w2 u where
      get: "hmget E w pb name xs = (w1, Inr texts)"
      and push: "push_batch E w1 name ph bh (dict_of_pairs (zip xs texts)) (tl (BACKENDS E))
                   = (w2, Inr u)"
      and rec: "fetch_loop E pick name n pb ph bh r w2 = Some (w', Inr ())"
      by (subst (asm) fetch_loop.simps) (auto split: sum.splits prod.splits)
    have lt: "length texts = length xs" by (rule hmget_length [OF get])
    then have batch: "dict_of_pairs (zip xs texts) = zip xs texts"
      using dx by (simp add: dict_of_pairs_distinct)
    have bkeys: "map fst (zip xs texts) = xs" using lt by simp
    from push_batch_calls [OF push] batch bkeys obtain seg2 where
      s2: "trace w2 = trace w1 @ seg2"
        "map keys_of_call seg2 = pushes ph bh (tl (BACKENDS E)) xs"
      by auto
    have t1: "trace w1 = trace w @ [HMGet (backend_name_of pb) name xs]"
      by (rule hmget_trace [OF get])
    have "length r < length todo" using lr k by simp
    from less.hyps [OF this dr rec] obtain bs seg where
      ih: "trace w' = trace w2 @ seg"
        "map keys_of_call seg
           = concat (map (batch_calls (backend_name_of pb) ph bh (tl (BACKENDS E))) bs)"
        "mset (concat bs) = mset r"
        "map length bs = batch_sizes (length r) (nat n)"
      by blast
    let ?seg = "HMGet (backend_name_of pb) name xs # seg2 @ seg"
    have "trace w' = trace w @ ?seg" using ih(1) s2(1) t1 by simp
    moreover have "map keys_of_call ?seg
        = concat (map (batch_calls (backend_name_of pb) ph bh (tl (BACKENDS E))) (xs # bs))"
      using ih(2) s2(2) by (simp add: batch_calls_def keys_of_call_def)
    moreover have "mset (concat (xs # bs)) = mset todo"
      using ih(3) ms by simp
    moreover have "map length (xs # bs) = batch_sizes (length todo) (nat n)"
    proof -
      have "0 < nat n" "0 < length todo" using n False by simp_all
      from batch_sizes_step [OF this] show ?thesis
        using ih(4) lx lr k(1) by simp
    qed
    ultimately show ?thesis by blast
  qed
qed

lemma fetch_loop_returns:
  assumes n: "0 < n"
  shows "\<exists>r. fetch_loop E pick name n pb ph bh todo w = Some r"
proof (induction "length todo" arbitrary: todo w rule: less_induct)
  case less
  show ?case
  proof (cases "todo = []")
    case True
    then show ?thesis by (simp add: fetch_loop.simps)
  next
    case False
    let ?k = "nat (min (int (length todo)) n)"
    have k: "0 < ?k" "?k \<le> length todo"
      using n False by auto
    from pop_many_ok [OF k(2), of pick] obtain xs r where
      pop: "pop_many pick ?k todo = Inr (xs, r)" and lr: "length r = length todo - ?k"
      by blast
    have "length r < length todo" using lr k by simp
    from less.hyps [OF this] have ih: "\<And>w. \<exists>y. fetch_loop E pick name n pb ph bh r w = Some y"
      by blast
    show ?thesis
      using False pop ih
      by (subst fetch_loop.simps) (auto split: sum.splits prod.splits)
  qed
qed

lemma push_batch_empty:
  "set names \<subseteq> fst ` set bh \<Longrightarrow> push_batch E w name ph bh [] names = (w, Inr ())"
proof (induction names)
  case Nil
  then show ?case by simp
next
  case (Cons n names)
  then obtain h where "dict_get bh n = Inr h"
    by (cases "map_of bh n") (auto simp: dict_get_def map_of_eq_None_iff)
  with Cons show ?case by simp
qed

lemma fetch_loop_diverges:
  assumes "n \<le> 0" "todo \<noteq> []" "set (tl (BACKENDS E)) \<subseteq> fst ` set bh"
  shows "fetch_loop E pick name n FileBackend ph bh todo w = None"
proof (rule ccontr)
  assume "fetch_loop E pick name n FileBackend ph bh todo w \<noteq> None"
  then obtain y where ret: "fetch_loop E pick name n FileBackend ph bh todo w = Some y"
    by auto
  have "\<not> (n \<le> 0 \<and> todo \<noteq> [] \<and> FileBackend = FileBackend
            \<and> set (tl (BACKENDS E)) \<subseteq> fst ` set bh)"
  proof (rule fetch_loop.raw_induct
      [where P = "\<lambda>E pick name n pb ph bh todo w y.
          \<not> (n \<le> 0 \<and> todo \<noteq> [] \<and> pb = FileBackend \<and> set (tl (BACKENDS E)) \<subseteq> fst ` set bh)",
        OF _ ret])
    fix f :: "env \<Rightarrow> (string list \<Rightarrow> nat) \<Rightarrow> string \<Rightarrow> int \<Rightarrow> backend \<Rightarrow> hashes \<Rightarrow>
        (string \<times> hashes) list \<Rightarrow> string list \<Rightarrow> world \<Rightarrow> (world \<times> (error + unit)) option"
    fix E pick name n pb ph bh todo w y
    assume IH: "\<And>E pick name n pb ph bh todo w y. f E pick name n pb ph bh todo w = Some y \<Longrightarrow>
        \<not> (n \<le> 0 \<and> todo \<noteq> [] \<and> pb = FileBackend \<and> set (tl (BACKENDS E)) \<subseteq> fst ` set bh)"
    assume eq: "(if todo = [] then Some (w, Inr ())
      else case pop_many pick (nat (min (int (length todo)) n)) todo of
           Inl e \<Rightarrow> Some (w, Inl e)
           | Inr (nodes_to_get, remaining) \<Rightarrow>
               case hmget E w pb name nodes_to_get of
               (w1, Inl e) \<Rightarrow> Some (w1, Inl e)
               | (w1, Inr texts) \<Rightarrow>
                   case push_batch E w1 name ph bh (dict_of_pairs (zip nodes_to_get texts))
                         (tl (BACKENDS E)) of
                   (w2, Inl e) \<Rightarrow> Some (w2, Inl e)
                   | (w2, Inr x) \<Rightarrow> f E pick name n pb ph bh remaining w2) = Some y"
    show "\<not> (n \<le> 0 \<and> todo \<noteq> [] \<and> pb = FileBackend \<and> set (tl (BACKENDS E)) \<subseteq> fst ` set bh)"
    proof
      assume c: "n \<le> 0 \<and> todo \<noteq> [] \<and> pb = FileBackend \<and> set (tl (BACKENDS E)) \<subseteq> fst ` set bh"
      then have sub: "set (tl (BACKENDS E)) \<subseteq> fst ` set bh" by simp
      have k: "nat (min (int (length todo)) n) = 0" using c by simp
      have g: "hmget E w FileBackend name [] = (log_call (HMGet ''file'' name []) w, Inr [])"
        by (simp add: hmget_def file_hmget_def backend_name_of_def Let_def)
      have "f E pick name n pb ph bh todo (log_call (HMGet ''file'' name []) w) = Some y"
        using eq c k g push_batch_empty [OF sub] by (simp add: dict_of_pairs_def)
      from IH [OF this] c show False by simp
    qed
  qed
  with assms show False by simp
qed

end
